theory Spec2Isabelle
  imports Main "HOL-Library.Word" "HOL-Library.AList"
begin

section \<open>MiniClaw: executor, command extraction, confirmation gate, scheduler\<close>

text \<open>
  A shallow embedding of the Go sources \<^verbatim>\<open>executor.go\<close>, \<^verbatim>\<open>ollama.go\<close> (which also holds
  the scheduler) and the bot's handlers. Go strings are byte strings and are modelled as
  \<^typ>\<open>string\<close>; \<^verbatim>\<open>len\<close> is \<^const>\<open>length\<close>. Everything the program obtains from outside
  (the operating system's answer when a process is run, the file system, the LLM's reply,
  the cron library's verdict on a schedule) is an explicit argument or a component of the
  state.
\<close>

subsection \<open>Go library functions used by the sources\<close>

text \<open>
  \<^verbatim>\<open>s[:n]\<close> on a Go string: the first \<open>n\<close> bytes; a run-time panic when \<open>n\<close> is negative
  or beyond the length.
\<close>

definition slice_to :: "string \<Rightarrow> int \<Rightarrow> string option" where
  "slice_to s n = (if n < 0 \<or> int (length s) < n then None else Some (take (nat n) s))"

text \<open>Decimal digits of a natural number (\<^verbatim>\<open>fmtInt\<close> of package \<^verbatim>\<open>time\<close>).\<close>

fun fmtInt :: "nat \<Rightarrow> string" where
  "fmtInt n = (if n < 10 then [char_of (48 + n)] else fmtInt (n div 10) @ [char_of (48 + n mod 10)])"

declare fmtInt.simps [simp del]

text \<open>
  \<^verbatim>\<open>fmtFrac\<close>: the digits of the fraction \<open>v / 10 ^ prec\<close> without trailing zeros,
  with the leading point, and nothing when the fraction is zero.
\<close>

fun fracDigits :: "nat \<Rightarrow> nat \<Rightarrow> bool \<Rightarrow> string \<Rightarrow> string" where
  "fracDigits 0 v pr acc = (if pr then CHR ''.'' # acc else acc)"
| "fracDigits (Suc i) v pr acc =
     (let digit = v mod 10; pr' = (pr \<or> digit \<noteq> 0)
      in fracDigits i (v div 10) pr' (if pr' then char_of (48 + digit) # acc else acc))"

definition fmtFrac :: "nat \<Rightarrow> nat \<Rightarrow> string" where
  "fmtFrac v prec = fracDigits prec v False []"

text \<open>
  \<^verbatim>\<open>time.Duration.String\<close> for a duration in nanoseconds: \<^verbatim>\<open>1m0s\<close>, \<^verbatim>\<open>1.5s\<close>,
  \<^verbatim>\<open>0s\<close>; below one second the unit is ms, \<open>\<mu>\<close>s (the micro sign is the bytes C2 B5) or ns.
\<close>

definition Duration_String :: "int \<Rightarrow> string" where
  "Duration_String d =
     (let u = nat \<bar>d\<bar>;
          body =
            (if u < 1000000000 then
               (if u = 0 then ''0s''
                else if u < 1000 then fmtInt u @ ''ns''
                else if u < 1000000 then
                  fmtInt (u div 1000) @ fmtFrac u 3 @ [char_of (0xC2::nat), char_of (0xB5::nat)] @ ''s''
                else fmtInt (u div 1000000) @ fmtFrac u 6 @ ''ms'')
             else
               (let secs = u div 1000000000; mins = secs div 60; hours = mins div 60
                in (if mins > 0
                    then (if hours > 0 then fmtInt hours @ ''h'' else [])
                         @ fmtInt (mins mod 60) @ ''m''
                    else [])
                   @ fmtInt (secs mod 60) @ fmtFrac u 9 @ ''s''))
      in if u = 0 then body else if d < 0 then CHR ''-'' # body else body)"

subsection \<open>Executor.Run\<close>

record Executor =
  workspace :: string
  timeout :: int
  maxOutputBytes :: int

record ExecResult =
  Stdout :: string
  Stderr :: string
  ExitCode :: int
  Duration :: int
  Truncated :: bool

text \<open>
  What the operating system answers when \<^verbatim>\<open>cmd.Run()\<close> is called. A process that was
  started ends by exiting with a status or by a signal; \<^verbatim>\<open>cmd.Run()\<close> returns \<^verbatim>\<open>nil\<close> for
  exit status 0, an \<^verbatim>\<open>*exec.ExitError\<close> for every other end of a started process, and some
  other error when the process could not be started. \<^verbatim>\<open>ExitError.ExitCode()\<close> is the exit
  status, or \<open>-1\<close> for a process terminated by a signal.
\<close>

datatype wait_status = Exited nat | Signaled nat

datatype run_err = ExitError wait_status | StartError string

fun ExitCode_of :: "wait_status \<Rightarrow> int" where
  "ExitCode_of (Exited n) = int n"
| "ExitCode_of (Signaled sig) = - 1"

record outcome =
  captured_stdout :: string
  captured_stderr :: string
  err :: "run_err option"
  deadline_exceeded :: bool
  elapsed :: int

text \<open>
  An outcome the operating system can produce: \<^verbatim>\<open>nil\<close> is exit status 0, so an
  \<^verbatim>\<open>ExitError\<close> never carries status 0, and exit statuses are bytes.
\<close>

definition os_outcome :: "outcome \<Rightarrow> bool" where
  "os_outcome oc =
     (case err oc of
        Some (ExitError (Exited n)) \<Rightarrow> 0 < n \<and> n < 256
      | _ \<Rightarrow> True)"

datatype run_failure = ExecutingCommand string | SliceBoundsPanic

definition timeout_marker :: string where
  "timeout_marker =
     [CHR 0x0A, CHR 0xE2, CHR 0x80, CHR 0x9A, CHR 0xC3, CHR 0xA8, CHR 0xC2, CHR 0xB1]
     @ '' TIMEOUT: command exceeded ''"

definition truncation_marker :: string where
  "truncation_marker = CHR 0x0A # ''... [truncated]''"

text \<open>
  The truncation step of \<^verbatim>\<open>Run\<close> on one stream: the stream and whether it was cut;
  \<open>None\<close> is the panic of the slice expression.
\<close>

definition truncate_stream :: "int \<Rightarrow> string \<Rightarrow> (string \<times> bool) option" where
  "truncate_stream cap s =
     (if int (length s) > cap
      then map_option (\<lambda>p. (p @ truncation_marker, True)) (slice_to s cap)
      else Some (s, False))"

definition Run :: "Executor \<Rightarrow> string \<Rightarrow> outcome \<Rightarrow> run_failure + ExecResult" where
  "Run e command oc =
     (let result = \<lparr>Stdout = captured_stdout oc, Stderr = captured_stderr oc, ExitCode = 0,
                     Duration = elapsed oc, Truncated = False\<rparr>
      in if deadline_exceeded oc then
           Inr (result\<lparr>ExitCode := - 1,
                       Stderr := Stderr result @ timeout_marker @ Duration_String (timeout e)\<rparr>)
         else
           (case err oc of
              Some (StartError m) \<Rightarrow> Inl (ExecutingCommand m)
            | other \<Rightarrow>
                (let result = (case other of Some (ExitError ws) \<Rightarrow> result\<lparr>ExitCode := ExitCode_of ws\<rparr>
                                           | _ \<Rightarrow> result)
                 in case truncate_stream (maxOutputBytes e) (Stdout result) of
                      None \<Rightarrow> Inl SliceBoundsPanic
                    | Some (out, cut1) \<Rightarrow>
                        (case truncate_stream (maxOutputBytes e) (Stderr result) of
                           None \<Rightarrow> Inl SliceBoundsPanic
                         | Some (errs, cut2) \<Rightarrow>
                             Inr (result\<lparr>Stdout := out, Stderr := errs,
                                         Truncated := (cut1 \<or> cut2)\<rparr>)))))"

subsection \<open>Package \<^verbatim>\<open>path/filepath\<close> on Unix\<close>

text \<open>\<^verbatim>\<open>strings.Split(p, "/")\<close>: the pieces between separators; never the empty list.\<close>

fun split_sep :: "string \<Rightarrow> string list" where
  "split_sep [] = [[]]"
| "split_sep (c # cs) =
     (if c = CHR ''/'' then [] # split_sep cs
      else (case split_sep cs of [] \<Rightarrow> [[c]] | e # es \<Rightarrow> (c # e) # es))"

text \<open>\<^verbatim>\<open>strings.Join(elems, sep)\<close>.\<close>

fun join_with :: "string \<Rightarrow> string list \<Rightarrow> string" where
  "join_with sep [] = []"
| "join_with sep [e] = e"
| "join_with sep (e # es) = e @ sep @ join_with sep es"

text \<open>
  \<^verbatim>\<open>filepath.Clean\<close> works through the path elements from the left, keeping the elements
  of the cleaned path written so far: empty elements and \<^verbatim>\<open>.\<close> are dropped; \<^verbatim>\<open>..\<close> removes
  the last element written when there is one that is not itself \<^verbatim>\<open>..\<close>, is dropped at
  the root of a rooted path, and is written otherwise.
\<close>

definition clean_step :: "bool \<Rightarrow> string list \<Rightarrow> string \<Rightarrow> string list" where
  "clean_step rooted out e =
     (if e = [] \<or> e = ''.'' then out
      else if e = ''..'' then
        (if out \<noteq> [] \<and> last out \<noteq> ''..'' then butlast out
         else if rooted then out
         else out @ [''..''])
      else out @ [e])"

definition is_rooted :: "string \<Rightarrow> bool" where
  "is_rooted p = (case p of [] \<Rightarrow> False | c # cs \<Rightarrow> c = CHR ''/'')"

definition clean_elems :: "string \<Rightarrow> string list" where
  "clean_elems p = foldl (clean_step (is_rooted p)) [] (split_sep p)"

definition render_path :: "bool \<Rightarrow> string list \<Rightarrow> string" where
  "render_path rooted es =
     (if rooted then CHR ''/'' # join_with ''/'' es
      else if es = [] then ''.'' else join_with ''/'' es)"

definition Clean :: "string \<Rightarrow> string" where
  "Clean p = render_path (is_rooted p) (clean_elems p)"

text \<open>
  \<^verbatim>\<open>filepath.Join(a, b)\<close>: leading empty elements are skipped, the others are joined
  with the separator and cleaned; the result is empty when both are empty.
\<close>

definition Join :: "string \<Rightarrow> string \<Rightarrow> string" where
  "Join a b =
     (if a \<noteq> [] then Clean (a @ ''/'' @ b)
      else if b \<noteq> [] then Clean b
      else [])"

text \<open>
  \<^verbatim>\<open>filepath.Base\<close>: the last element of the path, after trailing separators are
  removed; \<^verbatim>\<open>.\<close> for the empty path and \<^verbatim>\<open>/\<close> for a path of separators only.
\<close>

definition Base :: "string \<Rightarrow> string" where
  "Base p =
     (if p = [] then ''.''
      else
        (let q = rev (dropWhile (\<lambda>c. c = CHR ''/'') (rev p));
             r = rev (takeWhile (\<lambda>c. c \<noteq> CHR ''/'') (rev q))
         in if r = [] then ''/'' else r))"

text \<open>
  \<^verbatim>\<open>filepath.Ext\<close>: the suffix of the last element that starts at its last dot, empty
  when that element has no dot.
\<close>

fun ext_scan :: "string \<Rightarrow> string \<Rightarrow> string" where
  "ext_scan [] acc = []"
| "ext_scan (c # cs) acc =
     (if c = CHR ''/'' then []
      else if c = CHR ''.'' then c # acc
      else ext_scan cs (c # acc))"

definition Ext :: "string \<Rightarrow> string" where
  "Ext p = ext_scan (rev p) []"

text \<open>
  \<^verbatim>\<open>strings.ToLower\<close> on the ASCII letters. (On other letters Go applies the Unicode
  mapping; no such letter is mapped to a letter of the extensions compared below.)
\<close>

definition lower_char :: "char \<Rightarrow> char" where
  "lower_char c =
     (let n = (of_char c :: nat) in if 65 \<le> n \<and> n \<le> 90 then char_of (n + 32) else c)"

definition ToLower :: "string \<Rightarrow> string" where
  "ToLower s = map lower_char s"

subsection \<open>The file system\<close>

text \<open>
  The file system is a table from cleaned path names to nodes, with one entry for each
  name. Permission checks of the operating system are not modelled; the permission bits
  are kept because \<^verbatim>\<open>RunScript\<close> reads and sets them.
\<close>

datatype node = File (node_perm: "32 word") (node_content: string) | Directory (node_perm: "32 word")

type_synonym filesystem = "(string \<times> node) list"

definition parent_dir :: "string \<Rightarrow> string" where
  "parent_dir p = Clean (p @ ''/..'')"

definition os_Stat :: "filesystem \<Rightarrow> string \<Rightarrow> node option" where
  "os_Stat fs p = map_of fs p"

definition os_Chmod :: "filesystem \<Rightarrow> string \<Rightarrow> 32 word \<Rightarrow> filesystem" where
  "os_Chmod fs p m =
     (case map_of fs p of
        None \<Rightarrow> fs
      | Some (File old c) \<Rightarrow> AList.update p (File m c) fs
      | Some (Directory old) \<Rightarrow> AList.update p (Directory m) fs)"

definition os_ReadFile :: "filesystem \<Rightarrow> string \<Rightarrow> string option" where
  "os_ReadFile fs p = (case map_of fs p of Some (File m c) \<Rightarrow> Some c | _ \<Rightarrow> None)"

text \<open>
  \<^verbatim>\<open>os.WriteFile(p, data, 0644)\<close> replaces the content of an existing file, creates the
  file in an existing directory, and fails on a directory or without the parent directory.
\<close>

definition os_WriteFile :: "filesystem \<Rightarrow> string \<Rightarrow> string \<Rightarrow> filesystem option" where
  "os_WriteFile fs p data =
     (case map_of fs p of
        Some (Directory m) \<Rightarrow> None
      | Some (File m c) \<Rightarrow> Some (AList.update p (File m data) fs)
      | None \<Rightarrow>
          (case map_of fs (parent_dir p) of
             Some (Directory m) \<Rightarrow> Some (AList.update p (File 420 data) fs)
           | _ \<Rightarrow> None))"

text \<open>\<^verbatim>\<open>os.Remove\<close> removes a file or an empty directory.\<close>

definition has_entries :: "filesystem \<Rightarrow> string \<Rightarrow> bool" where
  "has_entries fs d = list_ex (\<lambda>(q, n). q \<noteq> d \<and> parent_dir q = d) fs"

definition os_Remove :: "filesystem \<Rightarrow> string \<Rightarrow> filesystem option" where
  "os_Remove fs p =
     (case map_of fs p of
        None \<Rightarrow> None
      | Some (File m c) \<Rightarrow> Some (AList.delete p fs)
      | Some (Directory m) \<Rightarrow> if has_entries fs p then None else Some (AList.delete p fs))"

subsection \<open>Executor: scripts and files of the workspace\<close>

definition detectInterpreter :: "filesystem \<Rightarrow> string \<Rightarrow> string \<Rightarrow> string" where
  "detectInterpreter fs path filename =
     (case os_ReadFile fs path of
        Some data \<Rightarrow>
          if length data > 2 \<and> take 2 data = ''#!''
          then drop 2 (takeWhile (\<lambda>c. c \<noteq> CHR 0x0A) data)
          else
            (let ext = ToLower (Ext filename)
             in if ext = ''.py'' then ''python3''
                else if ext = ''.sh'' \<or> ext = ''.bash'' then ''bash''
                else if ext = ''.js'' then ''node''
                else if ext = ''.rb'' then ''ruby''
                else if ext = ''.pl'' then ''perl''
                else ''bash'')
      | None \<Rightarrow>
          (let ext = ToLower (Ext filename)
           in if ext = ''.py'' then ''python3''
              else if ext = ''.sh'' \<or> ext = ''.bash'' then ''bash''
              else if ext = ''.js'' then ''node''
              else if ext = ''.rb'' then ''ruby''
              else if ext = ''.pl'' then ''perl''
              else ''bash''))"

datatype script_failure = ScriptNotFound string | RunFailed run_failure

text \<open>
  \<^verbatim>\<open>RunScript\<close> returns the file system (a missing executable bit is set) and either a
  failure or the command line it handed to \<^verbatim>\<open>Run\<close> together with \<^verbatim>\<open>Run\<close>'s result.
\<close>

definition RunScript ::
  "Executor \<Rightarrow> filesystem \<Rightarrow> string \<Rightarrow> string list \<Rightarrow> outcome
    \<Rightarrow> filesystem \<times> (script_failure + string \<times> ExecResult)" where
  "RunScript e fs filename args oc =
     (let path = Join (workspace e) filename
      in case os_Stat fs path of
           None \<Rightarrow> (fs, Inl (ScriptNotFound filename))
         | Some info \<Rightarrow>
             (let fs' = (if and (node_perm info) 73 = 0 then os_Chmod fs path (or (node_perm info) 493) else fs);
                  interpreter = detectInterpreter fs' path filename;
                  cmdStr = interpreter @ '' '' @ path;
                  cmdStr = (if length args > 0 then cmdStr @ '' '' @ join_with '' '' args else cmdStr)
              in (fs', case Run e cmdStr oc of
                         Inl f \<Rightarrow> Inl (RunFailed f)
                       | Inr r \<Rightarrow> Inr (cmdStr, r))))"

datatype file_failure = SavingFile | ReadingFile | RemoveFailed

definition SaveFile :: "Executor \<Rightarrow> filesystem \<Rightarrow> string \<Rightarrow> string \<Rightarrow> filesystem \<times> (file_failure + string)" where
  "SaveFile e fs filename content =
     (let filename = Base filename;
          path = Join (workspace e) filename
      in case os_WriteFile fs path content of
           None \<Rightarrow> (fs, Inl SavingFile)
         | Some fs' \<Rightarrow> (fs', Inr path))"

definition ReadFile :: "Executor \<Rightarrow> filesystem \<Rightarrow> string \<Rightarrow> file_failure + string" where
  "ReadFile e fs filename =
     (let filename = Base filename;
          path = Join (workspace e) filename
      in case os_ReadFile fs path of
           None \<Rightarrow> Inl ReadingFile
         | Some content \<Rightarrow>
             Inr (if length content > 4000 then take 4000 content @ truncation_marker else content))"

definition DeleteFile :: "Executor \<Rightarrow> filesystem \<Rightarrow> string \<Rightarrow> filesystem \<times> file_failure option" where
  "DeleteFile e fs filename =
     (let filename = Base filename;
          path = Join (workspace e) filename
      in case os_Remove fs path of
           None \<Rightarrow> (fs, Some RemoveFailed)
         | Some fs' \<Rightarrow> (fs', None))"

subsection \<open>Command extraction\<close>

text \<open>
  \<^verbatim>\<open>bashBlockRegex\<close> is the pattern: three backticks, then optionally \<^verbatim>\<open>bash\<close> or
  \<^verbatim>\<open>sh\<close>, then a newline, then lazily any bytes (the flag \<^verbatim>\<open>s\<close> lets the dot match a
  newline) up to the next three backticks. Go's \<^verbatim>\<open>regexp\<close> returns the match a backtracking
  matcher finds first, at the leftmost position where there is one.
\<close>

definition fence :: string where
  "fence = [CHR 0x60, CHR 0x60, CHR 0x60]"

definition strip_prefix :: "string \<Rightarrow> string \<Rightarrow> string option" where
  "strip_prefix p s = (if take (length p) s = p then Some (drop (length p) s) else None)"

text \<open>The lazy group and the closing fence: the bytes before the first fence, and the rest.\<close>

fun lazy_body :: "string \<Rightarrow> (string \<times> string) option" where
  "lazy_body [] = None"
| "lazy_body (c # cs) =
     (case strip_prefix fence (c # cs) of
        Some r \<Rightarrow> Some ([], r)
      | None \<Rightarrow> map_option (\<lambda>(b, r). (c # b, r)) (lazy_body cs))"

definition after_tag :: "string \<Rightarrow> string \<Rightarrow> (string \<times> string) option" where
  "after_tag tag s =
     (case strip_prefix (tag @ [CHR 0x0A]) s of None \<Rightarrow> None | Some u \<Rightarrow> lazy_body u)"

text \<open>
  A match that starts at the first byte: the captured group and the text after the
  match. The alternatives of the optional tag are tried in the pattern's order.
\<close>

definition match_here :: "string \<Rightarrow> (string \<times> string) option" where
  "match_here s =
     (case strip_prefix fence s of
        None \<Rightarrow> None
      | Some t \<Rightarrow>
          (case after_tag ''bash'' t of
             Some m \<Rightarrow> Some m
           | None \<Rightarrow>
               (case after_tag ''sh'' t of
                  Some m \<Rightarrow> Some m
                | None \<Rightarrow> after_tag [] t)))"

lemma strip_prefix_length:
  assumes "strip_prefix p s = Some r"
  shows "length r + length p = length s"
proof -
  from assms have t: "take (length p) s = p" and r: "r = drop (length p) s"
    by (simp_all add: strip_prefix_def split: if_splits)
  have "length (take (length p) s) = length p"
    by (rule arg_cong [OF t])
  then have "length p \<le> length s"
    by (simp add: min_def split: if_splits)
  with r show ?thesis by simp
qed

lemma lazy_body_shorter: "lazy_body s = Some (b, r) \<Longrightarrow> length r < length s"
proof (induction s arbitrary: b)
  case Nil
  then show ?case by simp
next
  case (Cons c cs)
  show ?case
  proof (cases "strip_prefix fence (c # cs)")
    case None
    with Cons.prems have "map_option (\<lambda>(b, r). (c # b, r)) (lazy_body cs) = Some (b, r)"
      by simp
    then obtain b' where "lazy_body cs = Some (b', r)"
      by (cases "lazy_body cs") (simp_all split: prod.splits)
    from Cons.IH [OF this] show ?thesis by simp
  next
    case (Some r')
    with Cons.prems have "r' = r" by simp
    with Some have "length r + length fence = length (c # cs)"
      by (simp only: strip_prefix_length)
    then show ?thesis by (simp add: fence_def)
  qed
qed

lemma after_tag_shorter:
  assumes "after_tag tag s = Some (b, r)"
  shows "length r < length s"
proof (cases "strip_prefix (tag @ [CHR 0x0A]) s")
  case None
  with assms show ?thesis by (simp add: after_tag_def)
next
  case (Some u)
  with assms have "lazy_body u = Some (b, r)" by (simp add: after_tag_def)
  then have "length r < length u" by (rule lazy_body_shorter)
  moreover from Some have "length u + length (tag @ [CHR 0x0A]) = length s"
    by (rule strip_prefix_length)
  ultimately show ?thesis by simp
qed

lemma match_here_shorter:
  assumes "match_here s = Some (b, r)"
  shows "length r < length s"
proof (cases "strip_prefix fence s")
  case None
  with assms show ?thesis by (simp add: match_here_def)
next
  case (Some t)
  then have len: "length t + length fence = length s"
    by (rule strip_prefix_length)
  from assms Some
  have "after_tag ''bash'' t = Some (b, r) \<or> after_tag ''sh'' t = Some (b, r)
        \<or> after_tag [] t = Some (b, r)"
    by (simp add: match_here_def split: option.splits)
  then have "length r < length t"
    using after_tag_shorter by blast
  with len show ?thesis by simp
qed

text \<open>
  \<^verbatim>\<open>FindAllStringSubmatch(response, -1)\<close>, reduced to the captured group of each match:
  the successive matches from the left, each search starting where the last match ended.
\<close>

function FindAllSubmatch :: "string \<Rightarrow> string list" where
  "FindAllSubmatch s =
     (case match_here s of
        Some (b, r) \<Rightarrow> b # FindAllSubmatch r
      | None \<Rightarrow> (case s of [] \<Rightarrow> [] | c # cs \<Rightarrow> FindAllSubmatch cs))"
  by pat_completeness auto
termination
proof (relation "measure length")
  show "wf (measure length)" by simp
next
  fix s :: string and x2 :: "string \<times> string" and b r :: string
  assume "match_here s = Some x2" and "(b, r) = x2"
  then have "match_here s = Some (b, r)" by simp
  then have "length r < length s" by (rule match_here_shorter)
  then show "(r, s) \<in> measure length" by simp
next
  fix s :: string and c :: char and cs :: string
  assume "s = c # cs"
  then show "(cs, s) \<in> measure length" by simp
qed

declare FindAllSubmatch.simps [simp del]

text \<open>
  \<^verbatim>\<open>strings.TrimSpace\<close> removes the leading and trailing runes for which
  \<^verbatim>\<open>unicode.IsSpace\<close> holds. These are their UTF-8 encodings.
\<close>

definition space_encodings :: "string list" where
  "space_encodings =
     map (\<lambda>b. [b]) [CHR 0x09, CHR 0x0A, CHR 0x0B, CHR 0x0C, CHR 0x0D, CHR 0x20]
     @ [[CHR 0xC2, CHR 0x85], [CHR 0xC2, CHR 0xA0], [CHR 0xE1, CHR 0x9A, CHR 0x80]]
     @ map (\<lambda>b. [CHR 0xE2, CHR 0x80, b])
         [CHR 0x80, CHR 0x81, CHR 0x82, CHR 0x83, CHR 0x84, CHR 0x85, CHR 0x86, CHR 0x87,
          CHR 0x88, CHR 0x89, CHR 0x8A, CHR 0xA8, CHR 0xA9, CHR 0xAF]
     @ [[CHR 0xE2, CHR 0x81, CHR 0x9F], [CHR 0xE3, CHR 0x80, CHR 0x80]]"

text \<open>The number of bytes of the encoding at the front of the string; 0 when there is none.\<close>

definition front_width :: "string list \<Rightarrow> string \<Rightarrow> nat" where
  "front_width encs s =
     (case find (\<lambda>e. e \<noteq> [] \<and> take (length e) s = e) encs of None \<Rightarrow> 0 | Some e \<Rightarrow> length e)"

lemma front_width_Nil: "front_width encs [] = 0"
  by (induction encs) (auto simp: front_width_def)

function trim_front :: "string list \<Rightarrow> string \<Rightarrow> string" where
  "trim_front encs s =
     (if front_width encs s = 0 then s else trim_front encs (drop (front_width encs s) s))"
  by pat_completeness auto
termination
proof (relation "measure (\<lambda>(encs, s). length s)")
  show "wf (measure (\<lambda>(encs, s). length s))" by simp
next
  fix encs :: "string list" and s :: string
  assume "front_width encs s \<noteq> 0"
  then have "s \<noteq> []" using front_width_Nil [of encs] by auto
  with \<open>front_width encs s \<noteq> 0\<close>
  show "((encs, drop (front_width encs s) s), (encs, s)) \<in> measure (\<lambda>(encs, s). length s)"
    by simp
qed

declare trim_front.simps [simp del]

definition TrimSpace :: "string \<Rightarrow> string" where
  "TrimSpace s = rev (trim_front (map rev space_encodings) (rev (trim_front space_encodings s)))"

definition ExtractBashCommands :: "string \<Rightarrow> string list" where
  "ExtractBashCommands response =
     filter (\<lambda>cmd. cmd \<noteq> []) (map TrimSpace (FindAllSubmatch response))"

subsection \<open>The bot: suggestions, confirmation and rejection\<close>

text \<open>
  The LLM client keeps the conversation; the reply of the server is an argument, \<open>None\<close>
  for every failure of the request. The texts the bot sends are kept as values of the
  type \<open>notice\<close>, one constructor for each text of the handlers, and \<open>sent\<close> lists what
  was handed to \<^verbatim>\<open>sendMessage\<close> (which cuts long texts into pieces for the transport).
  \<open>executed\<close> lists the command strings handed to \<^verbatim>\<open>executor.Run\<close>, oldest first, and
  \<open>crashed\<close> records a run-time panic, which ends the program. The handlers are modelled
  one call at a time, as if run one after the other.
\<close>

record ChatMessage =
  Role :: string
  Content :: string

record OllamaClient =
  history :: "ChatMessage list"

definition Chat :: "OllamaClient \<Rightarrow> string \<Rightarrow> ChatMessage option \<Rightarrow> OllamaClient \<times> string option" where
  "Chat cl userMessage reply =
     (case reply of
        None \<Rightarrow> (cl, None)
      | Some m \<Rightarrow>
          (cl\<lparr>history := history cl @ [\<lparr>Role = ''user'', Content = userMessage\<rparr>, m]\<rparr>,
           Some (Content m)))"

datatype notice =
    Thinking
  | OllamaError
  | Response string
  | AutoExecuting
  | RunError string
  | Result ExecResult
  | ConfirmPrompt string
  | NothingPending
  | Executing
  | Cancelled

record Message =
  From_ID :: "64 word"
  Chat_ID :: "64 word"

record Bot =
  AutoExecute :: bool
  executor :: Executor
  ollama :: OllamaClient
  pendingCmds :: "64 word \<Rightarrow> string option"
  sent :: "(64 word \<times> notice) list"
  executed :: "string list"
  crashed :: bool

definition sendMessage :: "Bot \<Rightarrow> 64 word \<Rightarrow> notice \<Rightarrow> Bot" where
  "sendMessage b chatID n = b\<lparr>sent := sent b @ [(chatID, n)]\<rparr>"

definition reply :: "Bot \<Rightarrow> Message \<Rightarrow> notice \<Rightarrow> Bot" where
  "reply b msg n = sendMessage b (Chat_ID msg) n"

text \<open>\<^verbatim>\<open>%d\<close> of \<^verbatim>\<open>fmt.Sprintf\<close>.\<close>

definition Itoa :: "int \<Rightarrow> string" where
  "Itoa i = (if i < 0 then CHR ''-'' # fmtInt (nat (- i)) else fmtInt (nat i))"

definition feedback :: "ExecResult \<Rightarrow> string" where
  "feedback r =
     ''The command was executed. Here is the result:'' @ [CHR 0x0A, CHR 0x0A]
     @ ''Exit code: '' @ Itoa (ExitCode r) @ [CHR 0x0A]
     @ ''Stdout:'' @ [CHR 0x0A] @ Stdout r @ [CHR 0x0A]
     @ ''Stderr:'' @ [CHR 0x0A] @ Stderr r"

definition handleChat :: "Bot \<Rightarrow> Message \<Rightarrow> string \<Rightarrow> ChatMessage option \<Rightarrow> outcome \<Rightarrow> Bot" where
  "handleChat b msg text_in llm oc =
     (let b = sendMessage b (Chat_ID msg) Thinking
      in case Chat (ollama b) text_in llm of
           (cl, None) \<Rightarrow> reply (b\<lparr>ollama := cl\<rparr>) msg OllamaError
         | (cl, Some response) \<Rightarrow>
             (let b = b\<lparr>ollama := cl\<rparr>;
                  commands = ExtractBashCommands response;
                  b = reply b msg (Response response)
              in if length commands > 0 then
                   (let combined = join_with [CHR 0x0A] commands
                    in if AutoExecute b then
                         (let b = sendMessage b (Chat_ID msg) AutoExecuting;
                              b = b\<lparr>executed := executed b @ [combined]\<rparr>
                          in case Run (executor b) combined oc of
                               Inl (ExecutingCommand m) \<Rightarrow> sendMessage b (Chat_ID msg) (RunError m)
                             | Inl SliceBoundsPanic \<Rightarrow> b\<lparr>crashed := True\<rparr>
                             | Inr r \<Rightarrow> sendMessage b (Chat_ID msg) (Result r))
                       else
                         sendMessage (b\<lparr>pendingCmds := (pendingCmds b)(From_ID msg \<mapsto> combined)\<rparr>)
                           (Chat_ID msg) (ConfirmPrompt combined))
                 else b))"

definition handleConfirm :: "Bot \<Rightarrow> Message \<Rightarrow> outcome \<Rightarrow> ChatMessage option \<Rightarrow> Bot" where
  "handleConfirm b msg oc llm =
     (case pendingCmds b (From_ID msg) of
        None \<Rightarrow> reply b msg NothingPending
      | Some cmd \<Rightarrow>
          (let b = b\<lparr>pendingCmds := (pendingCmds b)(From_ID msg := None)\<rparr>;
               b = sendMessage b (Chat_ID msg) Executing;
               b = b\<lparr>executed := executed b @ [cmd]\<rparr>
           in case Run (executor b) cmd oc of
                Inl (ExecutingCommand m) \<Rightarrow> reply b msg (RunError m)
              | Inl SliceBoundsPanic \<Rightarrow> b\<lparr>crashed := True\<rparr>
              | Inr r \<Rightarrow>
                  (let b = reply b msg (Result r)
                   in b\<lparr>ollama := fst (Chat (ollama b) (feedback r) llm)\<rparr>)))"

text \<open>The case \<^verbatim>\<open>/no\<close> of \<^verbatim>\<open>handleMessage\<close>.\<close>

definition handleNo :: "Bot \<Rightarrow> Message \<Rightarrow> Bot" where
  "handleNo b msg =
     reply (b\<lparr>pendingCmds := (pendingCmds b)(From_ID msg := None)\<rparr>) msg Cancelled"

subsection \<open>Scheduler\<close>

text \<open>
  Instants of \<^verbatim>\<open>time.Time\<close> are integers, 0 for Go's zero time. The cron library is a
  table of entries, each with the identifier the library gave it and the job its function
  runs, and the predicate \<open>parses\<close>: which schedule texts its parser accepts. The job table
  is a table of pairs with one pair for each key (a Go map has no order; none of the
  functions depends on it).
\<close>

record CronJob =
  ID :: string
  Spec :: string
  Command :: string
  Label :: string
  Created :: int
  LastRun :: int
  EntryID :: nat

record Cron =
  parses :: "string \<Rightarrow> bool"
  entries :: "(nat \<times> CronJob) list"
  nextID :: nat

definition cron_AddFunc :: "Cron \<Rightarrow> string \<Rightarrow> CronJob \<Rightarrow> (nat \<times> Cron) option" where
  "cron_AddFunc c spec job =
     (if parses c spec
      then Some (nextID c + 1, c\<lparr>entries := entries c @ [(nextID c + 1, job)], nextID := nextID c + 1\<rparr>)
      else None)"

definition cron_Remove :: "Cron \<Rightarrow> nat \<Rightarrow> Cron" where
  "cron_Remove c i = c\<lparr>entries := filter (\<lambda>(k, j). k \<noteq> i) (entries c)\<rparr>"

text \<open>
  The persisted file holds one JSON object, from job id to the record of the fields with
  a JSON name; \<^verbatim>\<open>EntryID\<close> has none. The file is modelled as that value (its members in
  the order of the table; the decoder does not depend on the order), as absent, or as a
  text that does not decode. The strings are texts in UTF-8, which \<^verbatim>\<open>encoding/json\<close>
  writes and reads back unchanged, and an instant is read back as the same instant.
\<close>

record JobRecord =
  json_id :: string
  json_spec :: string
  json_command :: string
  json_label :: string
  json_created :: int
  json_last_run :: int

datatype file_content = NoFile | Unparsable | JobTable "(string \<times> JobRecord) list"

definition to_record :: "CronJob \<Rightarrow> JobRecord" where
  "to_record j =
     \<lparr>json_id = ID j, json_spec = Spec j, json_command = Command j, json_label = Label j,
      json_created = Created j, json_last_run = LastRun j\<rparr>"

definition of_record :: "JobRecord \<Rightarrow> CronJob" where
  "of_record r =
     \<lparr>ID = json_id r, Spec = json_spec r, Command = json_command r, Label = json_label r,
      Created = json_created r, LastRun = json_last_run r, EntryID = 0\<rparr>"

datatype sched_failure = AlreadyExists string | InvalidSpec string | NotFound string

record Scheduler =
  cron :: Cron
  jobs :: "(string \<times> CronJob) list"
  persistFile :: string
  disk :: file_content
  writable :: bool
  sched_executor :: Executor
  notified :: "(string \<times> string \<times> (string + ExecResult)) list"

text \<open>
  \<^verbatim>\<open>persist\<close> rewrites the whole file; the result of \<^verbatim>\<open>os.WriteFile\<close> is dropped, so a
  write that fails (\<open>writable\<close> is false) leaves the old file and goes unnoticed.
\<close>

definition persist :: "Scheduler \<Rightarrow> Scheduler" where
  "persist s =
     (if writable s
      then s\<lparr>disk := JobTable (map (\<lambda>(k, j). (k, to_record j)) (jobs s))\<rparr>
      else s)"

definition load_job :: "JobRecord \<Rightarrow> Scheduler \<Rightarrow> Scheduler" where
  "load_job r s =
     (let j = of_record r
      in case cron_AddFunc (cron s) (Spec j) j of
           None \<Rightarrow> s
         | Some (entryID, c) \<Rightarrow>
             s\<lparr>cron := c, jobs := AList.update (ID j) (j\<lparr>EntryID := entryID\<rparr>) (jobs s)\<rparr>)"

definition load :: "Scheduler \<Rightarrow> Scheduler" where
  "load s =
     (case disk s of
        JobTable t \<Rightarrow> fold load_job (map snd t) s
      | _ \<Rightarrow> s)"

definition NewScheduler ::
  "(string \<Rightarrow> bool) \<Rightarrow> string \<Rightarrow> file_content \<Rightarrow> bool \<Rightarrow> Executor \<Rightarrow> Scheduler" where
  "NewScheduler parser file d w e =
     load \<lparr>cron = \<lparr>parses = parser, entries = [], nextID = 0\<rparr>, jobs = [],
           persistFile = file, disk = d, writable = w, sched_executor = e, notified = []\<rparr>"

definition Add ::
  "Scheduler \<Rightarrow> string \<Rightarrow> string \<Rightarrow> string \<Rightarrow> string \<Rightarrow> int \<Rightarrow> Scheduler \<times> sched_failure option" where
  "Add s job_id spec command label now =
     (case map_of (jobs s) job_id of
        Some existing \<Rightarrow> (s, Some (AlreadyExists job_id))
      | None \<Rightarrow>
          (let job = \<lparr>ID = job_id, Spec = spec, Command = command, Label = label,
                      Created = now, LastRun = 0, EntryID = 0\<rparr>
           in case cron_AddFunc (cron s) spec job of
                None \<Rightarrow> (s, Some (InvalidSpec spec))
              | Some (entryID, c) \<Rightarrow>
                  (persist (s\<lparr>cron := c,
                              jobs := AList.update job_id (job\<lparr>EntryID := entryID\<rparr>) (jobs s)\<rparr>),
                   None)))"

definition Remove :: "Scheduler \<Rightarrow> string \<Rightarrow> Scheduler \<times> sched_failure option" where
  "Remove s job_id =
     (case map_of (jobs s) job_id of
        None \<Rightarrow> (s, Some (NotFound job_id))
      | Some job \<Rightarrow>
          (persist (s\<lparr>cron := cron_Remove (cron s) (EntryID job),
                      jobs := AList.delete job_id (jobs s)\<rparr>),
           None))"

definition List_jobs :: "Scheduler \<Rightarrow> CronJob list" where
  "List_jobs s = map snd (jobs s)"

text \<open>
  \<^verbatim>\<open>runJob\<close> gets the job its cron entry holds. It sets \<^verbatim>\<open>LastRun\<close> of that job object,
  which is the job of the table under its id exactly when that one has the entry's
  identifier. A panic inside \<^verbatim>\<open>Run\<close> ends the program before anything is recorded.
\<close>

definition runJob :: "Scheduler \<Rightarrow> CronJob \<Rightarrow> outcome \<Rightarrow> int \<Rightarrow> Scheduler" where
  "runJob s job oc now =
     (case Run (sched_executor s) (Command job) oc of
        Inl SliceBoundsPanic \<Rightarrow> s
      | res \<Rightarrow>
          (let s = s\<lparr>jobs :=
                      (case map_of (jobs s) (ID job) of
                         Some j \<Rightarrow>
                           if EntryID j = EntryID job
                           then AList.update (ID job) (j\<lparr>LastRun := now\<rparr>) (jobs s)
                           else jobs s
                       | None \<Rightarrow> jobs s)\<rparr>;
               s = persist s
           in s\<lparr>notified := notified s @
                  [(ID job, Label job,
                    case res of Inl (ExecutingCommand m) \<Rightarrow> Inl m
                              | Inl SliceBoundsPanic \<Rightarrow> Inl []
                              | Inr r \<Rightarrow> Inr r)]\<rparr>))"

text \<open>A firing of the cron entry \<open>i\<close>.\<close>

definition trigger :: "Scheduler \<Rightarrow> nat \<Rightarrow> outcome \<Rightarrow> int \<Rightarrow> Scheduler" where
  "trigger s i oc now =
     (case map_of (entries (cron s)) i of
        None \<Rightarrow> s
      | Some job \<Rightarrow> runJob s (job\<lparr>EntryID := i\<rparr>) oc now)"

text \<open>The scheduler states that the operations produce.\<close>

inductive reachable :: "Scheduler \<Rightarrow> bool" where
  start: "reachable (NewScheduler parser file d w e)"
| add: "reachable s \<Longrightarrow> reachable (fst (Add s job_id spec command label now))"
| remove: "reachable s \<Longrightarrow> reachable (fst (Remove s job_id))"
| fire: "reachable s \<Longrightarrow> reachable (trigger s i oc now)"
| disk_state: "reachable s \<Longrightarrow> reachable (s\<lparr>writable := w\<rparr>)"

text \<open>
  What holds of every job table the operations produce: one entry for each key, every job
  stored under its own id, every schedule text accepted by the parser.
\<close>

definition sched_inv :: "Scheduler \<Rightarrow> bool" where
  "sched_inv s =
     (distinct (map fst (jobs s)) \<and>
      (\<forall>k j. map_of (jobs s) k = Some j \<longrightarrow> ID j = k \<and> parses (cron s) (Spec j)))"

text \<open>The persisted fields of the job under a key.\<close>

definition stored :: "Scheduler \<Rightarrow> string \<Rightarrow> JobRecord option" where
  "stored s k = map_option to_record (map_of (jobs s) k)"

text \<open>
  Texts made of well-formed blocks, to state what extraction returns on them: a block is
  an opening fence with its tag, a newline, the body and the closing fence; a document is
  a sequence of blocks, each after some text, and a final text.
\<close>

definition block :: "string \<Rightarrow> string \<Rightarrow> string" where
  "block tag body = fence @ tag @ [CHR 0x0A] @ body @ fence"

fun document :: "(string \<times> string \<times> string) list \<Rightarrow> string \<Rightarrow> string" where
  "document [] post = post"
| "document ((pre, tag, body) # bs) post = pre @ block tag body @ document bs post"

text \<open>
  Names for the statements about the files of the workspace: a plain name is a path
  element that is neither empty nor \<^verbatim>\<open>.\<close> nor \<^verbatim>\<open>..\<close>; \<open>child d b\<close> is the path of the entry
  \<open>b\<close> of the directory \<open>d\<close>.
\<close>

definition plain_name :: "string \<Rightarrow> bool" where
  "plain_name b \<longleftrightarrow> b \<noteq> [] \<and> b \<noteq> ''.'' \<and> b \<noteq> ''..'' \<and> CHR ''/'' \<notin> set b"

definition child :: "string \<Rightarrow> string \<Rightarrow> string" where
  "child d b = render_path (is_rooted d) (clean_elems d @ [b])"

section \<open>Properties of the executor\<close>

lemma truncate_stream_ok:
  "0 \<le> cap \<Longrightarrow> truncate_stream cap s =
     Some (if int (length s) > cap then take (nat cap) s @ truncation_marker else s,
           int (length s) > cap)"
  by (simp add: truncate_stream_def slice_to_def)

lemma Run_in_time:
  assumes cap: "0 \<le> maxOutputBytes e"
      and intime: "\<not> deadline_exceeded oc"
      and started: "err oc = None \<or> err oc = Some (ExitError ws)"
  shows "Run e c oc = Inr
     \<lparr>Stdout = (if int (length (captured_stdout oc)) > maxOutputBytes e
                 then take (nat (maxOutputBytes e)) (captured_stdout oc) @ truncation_marker
                 else captured_stdout oc),
      Stderr = (if int (length (captured_stderr oc)) > maxOutputBytes e
                 then take (nat (maxOutputBytes e)) (captured_stderr oc) @ truncation_marker
                 else captured_stderr oc),
      ExitCode = (case err oc of None \<Rightarrow> 0 | Some x \<Rightarrow> ExitCode_of ws),
      Duration = elapsed oc,
      Truncated = (int (length (captured_stdout oc)) > maxOutputBytes e
                        \<or> int (length (captured_stderr oc)) > maxOutputBytes e)\<rparr>"
  using started
proof
  assume "err oc = None"
  then show ?thesis using cap intime
    by (simp add: Run_def truncate_stream_ok)
next
  assume "err oc = Some (ExitError ws)"
  then show ?thesis using cap intime
    by (simp add: Run_def truncate_stream_ok)
qed

lemma Run_timed_out:
  "deadline_exceeded oc \<Longrightarrow> Run e c oc = Inr
     \<lparr>Stdout = captured_stdout oc,
      Stderr = captured_stderr oc @ timeout_marker @ Duration_String (timeout e),
      ExitCode = - 1, Duration = elapsed oc, Truncated = False\<rparr>"
  by (simp add: Run_def)

lemma Run_not_started:
  "\<not> deadline_exceeded oc \<Longrightarrow> err oc = Some (StartError m) \<Longrightarrow>
   Run e c oc = Inl (ExecutingCommand m)"
  by (simp add: Run_def)

lemma started_cases:
  assumes "\<forall>m. err oc \<noteq> Some (StartError m)"
  obtains "err oc = None" | ws where "err oc = Some (ExitError ws)"
proof (cases "err oc")
  case None
  then show ?thesis using that by simp
next
  case (Some re)
  then show ?thesis using that assms by (cases re) auto
qed

text \<open>
  The path on which the deadline was not exceeded. When the process was started (and the
  configured cap is not negative), a stream longer than \<open>maxOutputBytes\<close> is returned as
  its first \<open>maxOutputBytes\<close> bytes followed by the truncation marker, a stream at or below
  the cap is returned byte for byte, the flag \<open>Truncated\<close> is set if and only if at least
  one of the two streams was cut, and each returned stream is at most the cap plus the
  marker long.
\<close>

lemma Run_caps_in_time:
  assumes cap: "0 \<le> maxOutputBytes e"
      and intime: "\<not> deadline_exceeded oc"
      and started: "\<forall>m. err oc \<noteq> Some (StartError m)"
  shows "\<exists>r. Run e c oc = Inr r
       \<and> Stdout r = (if int (length (captured_stdout oc)) > maxOutputBytes e
                     then take (nat (maxOutputBytes e)) (captured_stdout oc) @ truncation_marker
                     else captured_stdout oc)
       \<and> Stderr r = (if int (length (captured_stderr oc)) > maxOutputBytes e
                     then take (nat (maxOutputBytes e)) (captured_stderr oc) @ truncation_marker
                     else captured_stderr oc)
       \<and> (Truncated r \<longleftrightarrow> int (length (captured_stdout oc)) > maxOutputBytes e
                          \<or> int (length (captured_stderr oc)) > maxOutputBytes e)
       \<and> int (length (Stdout r)) \<le> maxOutputBytes e + int (length truncation_marker)
       \<and> int (length (Stderr r)) \<le> maxOutputBytes e + int (length truncation_marker)"
  using started
proof (cases rule: started_cases)
  case 1
  then have "err oc = None \<or> err oc = Some (ExitError (Exited 0))" by simp
  from Run_in_time [OF cap intime this] show ?thesis using cap by auto
next
  case (2 ws)
  then have "err oc = None \<or> err oc = Some (ExitError ws)" by simp
  from Run_in_time [OF cap intime this] show ?thesis using cap by auto
qed

lemma Run_caps_in_time_example:
  "\<exists>r. Run \<lparr>workspace = ''/ws'', timeout = 60000000000, maxOutputBytes = 4\<rparr> ''echo 123456''
        \<lparr>captured_stdout = ''123456'' @ [CHR 0x0A], captured_stderr = [], err = None,
         deadline_exceeded = False, elapsed = 1000\<rparr> = Inr r
     \<and> Stdout r = ''1234'' @ truncation_marker \<and> Stderr r = [] \<and> Truncated r"
  using Run_caps_in_time [of "\<lparr>workspace = ''/ws'', timeout = 60000000000, maxOutputBytes = 4\<rparr>"
        "\<lparr>captured_stdout = ''123456'' @ [CHR 0x0A], captured_stderr = [], err = None,
         deadline_exceeded = False, elapsed = 1000\<rparr>" "''echo 123456''"]
  by auto

text \<open>
  Claim C2 does not hold of the code when the deadline is exceeded. \<^verbatim>\<open>Run\<close> returns from
  the timeout branch before it reaches the truncation step: with a cap of 4 bytes and a
  timeout of one second, a command that prints 40 digits and then sleeps has all 41 bytes
  of its output returned, more than the cap and the truncation marker together, without
  the marker and with \<open>Truncated = False\<close>.
\<close>

theorem Run_timeout_uncapped:
  "Run \<lparr>workspace = ''/ws'', timeout = 1000000000, maxOutputBytes = 4\<rparr>
        ''echo 0123456789012345678901234567890123456789; sleep 10''
        \<lparr>captured_stdout = ''0123456789012345678901234567890123456789'' @ [CHR 0x0A],
         captured_stderr = [],
         err = Some (ExitError (Signaled 9)), deadline_exceeded = True, elapsed = 1000000000\<rparr>
   = Inr \<lparr>Stdout = ''0123456789012345678901234567890123456789'' @ [CHR 0x0A],
           Stderr = timeout_marker @ Duration_String 1000000000,
           ExitCode = - 1, Duration = 1000000000, Truncated = False\<rparr>
   \<and> length (''0123456789012345678901234567890123456789'' @ [CHR 0x0A])
       > 4 + length truncation_marker"
  by (simp add: Run_def truncation_marker_def)

text \<open>
  Claim C3, as the code has it (for a cap that is not negative). Whenever the deadline was
  exceeded the exit code is \<open>-1\<close>. A process that ended by itself before the deadline
  has its exit status as exit code: 0 when \<^verbatim>\<open>cmd.Run()\<close> returned no error, the status
  \<open>n\<close> of the \<^verbatim>\<open>ExitError\<close> otherwise, which is never \<open>-1\<close>. A process
  that was ended by a signal before the deadline is reported with \<open>-1\<close> as well. The
  command \<^verbatim>\<open>exit 7\<close>, which prints nothing and exits with status 7, gives exit code 7,
  empty streams and \<open>Truncated = False\<close>.
\<close>

theorem Run_exit_code:
  assumes cap: "0 \<le> maxOutputBytes e"
  shows "(deadline_exceeded oc \<longrightarrow> (\<exists>r. Run e c oc = Inr r \<and> ExitCode r = - 1))
   \<and> (\<not> deadline_exceeded oc \<and> err oc = None \<longrightarrow>
        (\<exists>r. Run e c oc = Inr r \<and> ExitCode r = 0))
   \<and> (\<forall>n. \<not> deadline_exceeded oc \<and> err oc = Some (ExitError (Exited n)) \<longrightarrow>
        (\<exists>r. Run e c oc = Inr r \<and> ExitCode r = int n \<and> ExitCode r \<noteq> - 1))
   \<and> (\<forall>sig. \<not> deadline_exceeded oc \<and> err oc = Some (ExitError (Signaled sig)) \<longrightarrow>
        (\<exists>r. Run e c oc = Inr r \<and> ExitCode r = - 1))
   \<and> Run e ''exit 7'' \<lparr>captured_stdout = [], captured_stderr = [],
          err = Some (ExitError (Exited 7)), deadline_exceeded = False, elapsed = d\<rparr>
      = Inr \<lparr>Stdout = [], Stderr = [], ExitCode = 7, Duration = d, Truncated = False\<rparr>"
proof (intro conjI allI impI)
  assume "deadline_exceeded oc"
  then show "\<exists>r. Run e c oc = Inr r \<and> ExitCode r = - 1"
    by (simp add: Run_timed_out)
next
  assume a: "\<not> deadline_exceeded oc \<and> err oc = None"
  then have "err oc = None \<or> err oc = Some (ExitError (Exited 0))" by simp
  from Run_in_time [OF cap _ this] a
  show "\<exists>r. Run e c oc = Inr r \<and> ExitCode r = 0" by simp
next
  fix n
  assume a: "\<not> deadline_exceeded oc \<and> err oc = Some (ExitError (Exited n))"
  then have "err oc = None \<or> err oc = Some (ExitError (Exited n))" by simp
  from Run_in_time [OF cap _ this] a
  show "\<exists>r. Run e c oc = Inr r \<and> ExitCode r = int n \<and> ExitCode r \<noteq> - 1" by simp
next
  fix sig
  assume a: "\<not> deadline_exceeded oc \<and> err oc = Some (ExitError (Signaled sig))"
  then have "err oc = None \<or> err oc = Some (ExitError (Signaled sig))" by simp
  from Run_in_time [OF cap _ this] a
  show "\<exists>r. Run e c oc = Inr r \<and> ExitCode r = - 1" by simp
next
  have "err \<lparr>captured_stdout = [], captured_stderr = [],
          err = Some (ExitError (Exited 7)), deadline_exceeded = False, elapsed = d\<rparr> = None
     \<or> err \<lparr>captured_stdout = [], captured_stderr = [],
          err = Some (ExitError (Exited 7)), deadline_exceeded = False, elapsed = d\<rparr>
       = Some (ExitError (Exited 7))"
    by simp
  from Run_in_time [OF cap _ this, of "''exit 7''"] cap
  show "Run e ''exit 7'' \<lparr>captured_stdout = [], captured_stderr = [],
          err = Some (ExitError (Exited 7)), deadline_exceeded = False, elapsed = d\<rparr>
      = Inr \<lparr>Stdout = [], Stderr = [], ExitCode = 7, Duration = d, Truncated = False\<rparr>"
    by simp
qed

theorem Run_exit_code_witness:
  "(\<exists>r. Run \<lparr>workspace = ''/ws'', timeout = 1000000000, maxOutputBytes = 4000\<rparr> ''sleep 10''
        \<lparr>captured_stdout = [], captured_stderr = [], err = Some (ExitError (Signaled 9)),
         deadline_exceeded = True, elapsed = 1000000000\<rparr> = Inr r \<and> ExitCode r = - 1)
   \<and> Run \<lparr>workspace = ''/ws'', timeout = 1000000000, maxOutputBytes = 4000\<rparr> ''exit 7''
        \<lparr>captured_stdout = [], captured_stderr = [], err = Some (ExitError (Exited 7)),
         deadline_exceeded = False, elapsed = 5\<rparr>
      = Inr \<lparr>Stdout = [], Stderr = [], ExitCode = 7, Duration = 5, Truncated = False\<rparr>"
  using Run_exit_code [of "\<lparr>workspace = ''/ws'', timeout = 1000000000, maxOutputBytes = 4000\<rparr>"
      "\<lparr>captured_stdout = [], captured_stderr = [], err = Some (ExitError (Signaled 9)),
         deadline_exceeded = True, elapsed = 1000000000\<rparr>" "''sleep 10''" 5]
  by simp

text \<open>
  Claim C3 as stated fails: a command that kills its own shell ends by a signal well before
  the deadline, and its exit code is the timeout sentinel.
\<close>

theorem Run_signal_reports_sentinel:
  "Run \<lparr>workspace = ''/ws'', timeout = 60000000000, maxOutputBytes = 4000\<rparr> ''kill -9 $$''
        \<lparr>captured_stdout = [], captured_stderr = [], err = Some (ExitError (Signaled 9)),
         deadline_exceeded = False, elapsed = 2000000\<rparr>
   = Inr \<lparr>Stdout = [], Stderr = [], ExitCode = - 1, Duration = 2000000, Truncated = False\<rparr>
   \<and> \<not> deadline_exceeded \<lparr>captured_stdout = [], captured_stderr = [],
         err = Some (ExitError (Signaled 9)), deadline_exceeded = False, elapsed = 2000000\<rparr>
   \<and> os_outcome \<lparr>captured_stdout = [], captured_stderr = [],
         err = Some (ExitError (Signaled 9)), deadline_exceeded = False, elapsed = 2000000\<rparr>"
  by (simp add: Run_def truncate_stream_def os_outcome_def)

text \<open>
  Claim C4. \<^verbatim>\<open>Run\<close> returns a failure exactly when the deadline was not exceeded and
  \<^verbatim>\<open>cmd.Run()\<close> returned an error that is not an \<^verbatim>\<open>ExitError\<close>, that is, when the
  process could not be started; the failure wraps that error. Every other outcome
  (success, an exit status other than 0, the end by a signal, the timeout) is a returned
  result whose exit code encodes the outcome. (The cap is not negative.)
\<close>

theorem Run_fails_only_unstarted:
  assumes cap: "0 \<le> maxOutputBytes e"
  shows "((\<exists>f. Run e c oc = Inl f) \<longleftrightarrow>
            \<not> deadline_exceeded oc \<and> (\<exists>m. err oc = Some (StartError m)))
   \<and> (\<forall>m. \<not> deadline_exceeded oc \<and> err oc = Some (StartError m) \<longrightarrow>
            Run e c oc = Inl (ExecutingCommand m))
   \<and> (deadline_exceeded oc \<or> (\<forall>m. err oc \<noteq> Some (StartError m)) \<longrightarrow>
        (\<exists>r. Run e c oc = Inr r \<and>
           ExitCode r =
             (if deadline_exceeded oc then - 1
              else case err oc of Some (ExitError ws) \<Rightarrow> ExitCode_of ws | _ \<Rightarrow> 0)))"
proof (cases "deadline_exceeded oc")
  case True
  then show ?thesis by (simp add: Run_timed_out)
next
  case False
  show ?thesis
  proof (cases "\<exists>m. err oc = Some (StartError m)")
    case True
    then obtain m where "err oc = Some (StartError m)" by blast
    with False show ?thesis by (simp add: Run_not_started)
  next
    case no: False
    then have "\<forall>m. err oc \<noteq> Some (StartError m)" by simp
    then show ?thesis
    proof (cases rule: started_cases)
      case 1
      then have "err oc = None \<or> err oc = Some (ExitError (Exited 0))" by simp
      from Run_in_time [OF cap False this] 1 False show ?thesis by simp
    next
      case (2 ws)
      then have "err oc = None \<or> err oc = Some (ExitError ws)" by simp
      from Run_in_time [OF cap False this] 2 False show ?thesis by simp
    qed
  qed
qed

theorem Run_fails_only_unstarted_witness:
  "(\<exists>f. Run \<lparr>workspace = ''/nowhere'', timeout = 60000000000, maxOutputBytes = 4000\<rparr> ''ls''
        \<lparr>captured_stdout = [], captured_stderr = [],
         err = Some (StartError ''chdir /nowhere: no such file or directory''),
         deadline_exceeded = False, elapsed = 1000\<rparr> = Inl f)
   \<and> Run \<lparr>workspace = ''/nowhere'', timeout = 60000000000, maxOutputBytes = 4000\<rparr> ''ls''
        \<lparr>captured_stdout = [], captured_stderr = [],
         err = Some (StartError ''chdir /nowhere: no such file or directory''),
         deadline_exceeded = False, elapsed = 1000\<rparr>
      = Inl (ExecutingCommand ''chdir /nowhere: no such file or directory'')"
  using Run_fails_only_unstarted
      [of "\<lparr>workspace = ''/nowhere'', timeout = 60000000000, maxOutputBytes = 4000\<rparr>" "''ls''"
        "\<lparr>captured_stdout = [], captured_stderr = [],
         err = Some (StartError ''chdir /nowhere: no such file or directory''),
         deadline_exceeded = False, elapsed = 1000\<rparr>"]
  by simp

section \<open>Properties of the confirmation gate\<close>

lemma handleChat_suggest:
  assumes safe: "\<not> AutoExecute b"
      and cmds: "ExtractBashCommands (Content m) \<noteq> []"
  shows "handleChat b msg t (Some m) oc =
     b\<lparr>ollama := (ollama b)\<lparr>history := history (ollama b) @ [\<lparr>Role = ''user'', Content = t\<rparr>, m]\<rparr>,
       pendingCmds := (pendingCmds b)
          (From_ID msg \<mapsto> join_with [CHR 0x0A] (ExtractBashCommands (Content m))),
       sent := sent b @ [(Chat_ID msg, Thinking), (Chat_ID msg, Response (Content m)),
          (Chat_ID msg, ConfirmPrompt (join_with [CHR 0x0A] (ExtractBashCommands (Content m))))]\<rparr>"
  using safe cmds
  by (simp add: handleChat_def Chat_def sendMessage_def reply_def Let_def)

lemma handleConfirm_pending:
  assumes "pendingCmds b (From_ID msg) = Some cmd"
  shows "pendingCmds (handleConfirm b msg oc llm) = (pendingCmds b)(From_ID msg := None)
       \<and> executed (handleConfirm b msg oc llm) = executed b @ [cmd]"
  using assms
  by (simp add: handleConfirm_def sendMessage_def reply_def Let_def
           split: sum.splits run_failure.splits)


text \<open>
  Claim C7. The pending commands are a map from the operator's id to one command string,
  so an operator has at most one pending entry. When two suggestions for the same
  operator arrive with no accept or reject between them (confirmation mode on, each reply
  of the LLM with at least one extracted command), the second overwrites the first:
  nothing was executed, the pending entry is the second command, an accept executes the
  second command and only it, and after that nothing is pending, so that the first command
  can no longer be retrieved.
\<close>

theorem second_suggestion_overwrites:
  assumes safe: "\<not> AutoExecute b"
      and first: "ExtractBashCommands (Content m1) \<noteq> []"
      and second: "ExtractBashCommands (Content m2) \<noteq> []"
      and same: "From_ID msg2 = From_ID msg1" "From_ID msg3 = From_ID msg1"
  shows "pendingCmds (handleChat b msg1 t1 (Some m1) oc1) (From_ID msg1)
           = Some (join_with [CHR 0x0A] (ExtractBashCommands (Content m1)))
   \<and> pendingCmds (handleChat (handleChat b msg1 t1 (Some m1) oc1) msg2 t2 (Some m2) oc2) (From_ID msg1)
           = Some (join_with [CHR 0x0A] (ExtractBashCommands (Content m2)))
   \<and> executed (handleChat (handleChat b msg1 t1 (Some m1) oc1) msg2 t2 (Some m2) oc2) = executed b
   \<and> executed (handleConfirm
         (handleChat (handleChat b msg1 t1 (Some m1) oc1) msg2 t2 (Some m2) oc2) msg3 oc3 llm)
           = executed b @ [join_with [CHR 0x0A] (ExtractBashCommands (Content m2))]
   \<and> pendingCmds (handleConfirm
         (handleChat (handleChat b msg1 t1 (Some m1) oc1) msg2 t2 (Some m2) oc2) msg3 oc3 llm)
         (From_ID msg1) = None"
proof -
  let ?b1 = "handleChat b msg1 t1 (Some m1) oc1"
  let ?b2 = "handleChat ?b1 msg2 t2 (Some m2) oc2"
  have b1: "pendingCmds ?b1 (From_ID msg1)
              = Some (join_with [CHR 0x0A] (ExtractBashCommands (Content m1)))"
    and e1: "executed ?b1 = executed b" and a1: "\<not> AutoExecute ?b1"
    using safe by (simp_all add: handleChat_suggest [OF safe first])
  have b2: "pendingCmds ?b2 (From_ID msg1)
              = Some (join_with [CHR 0x0A] (ExtractBashCommands (Content m2)))"
    and e2: "executed ?b2 = executed b"
    using e1 same by (simp_all add: handleChat_suggest [OF a1 second])
  from b2 same have p: "pendingCmds ?b2 (From_ID msg3)
              = Some (join_with [CHR 0x0A] (ExtractBashCommands (Content m2)))"
    by simp
  from handleConfirm_pending [OF p, of oc3 llm] b1 b2 e2 same show ?thesis
    by simp
qed

lemmas extract_eval = ExtractBashCommands_def FindAllSubmatch.simps match_here_def after_tag_def
  strip_prefix_def fence_def TrimSpace_def trim_front.simps front_width_def space_encodings_def

theorem second_suggestion_overwrites_witness:
  "pendingCmds
     (handleChat
        (handleChat
           \<lparr>AutoExecute = False,
            executor = \<lparr>workspace = ''/ws'', timeout = 60000000000, maxOutputBytes = 4000\<rparr>,
            ollama = \<lparr>history = []\<rparr>, pendingCmds = Map.empty, sent = [], executed = [],
            crashed = False\<rparr>
           \<lparr>From_ID = 42, Chat_ID = 42\<rparr> ''list the files''
           (Some \<lparr>Role = ''assistant'',
                  Content = fence @ ''bash'' @ [CHR 0x0A] @ ''ls'' @ [CHR 0x0A] @ fence\<rparr>)
           \<lparr>captured_stdout = [], captured_stderr = [], err = None, deadline_exceeded = False,
            elapsed = 0\<rparr>)
        \<lparr>From_ID = 42, Chat_ID = 42\<rparr> ''where am I''
        (Some \<lparr>Role = ''assistant'',
               Content = fence @ ''sh'' @ [CHR 0x0A] @ ''pwd'' @ [CHR 0x0A] @ fence\<rparr>)
        \<lparr>captured_stdout = [], captured_stderr = [], err = None, deadline_exceeded = False,
         elapsed = 0\<rparr>)
     42 = Some ''pwd''
   \<and> executed
     (handleConfirm
       (handleChat
        (handleChat
           \<lparr>AutoExecute = False,
            executor = \<lparr>workspace = ''/ws'', timeout = 60000000000, maxOutputBytes = 4000\<rparr>,
            ollama = \<lparr>history = []\<rparr>, pendingCmds = Map.empty, sent = [], executed = [],
            crashed = False\<rparr>
           \<lparr>From_ID = 42, Chat_ID = 42\<rparr> ''list the files''
           (Some \<lparr>Role = ''assistant'',
                  Content = fence @ ''bash'' @ [CHR 0x0A] @ ''ls'' @ [CHR 0x0A] @ fence\<rparr>)
           \<lparr>captured_stdout = [], captured_stderr = [], err = None, deadline_exceeded = False,
            elapsed = 0\<rparr>)
        \<lparr>From_ID = 42, Chat_ID = 42\<rparr> ''where am I''
        (Some \<lparr>Role = ''assistant'',
               Content = fence @ ''sh'' @ [CHR 0x0A] @ ''pwd'' @ [CHR 0x0A] @ fence\<rparr>)
        \<lparr>captured_stdout = [], captured_stderr = [], err = None, deadline_exceeded = False,
         elapsed = 0\<rparr>)
       \<lparr>From_ID = 42, Chat_ID = 42\<rparr>
       \<lparr>captured_stdout = ''/ws'', captured_stderr = [], err = None, deadline_exceeded = False,
        elapsed = 7\<rparr>
       None)
     = [''pwd'']"
  using second_suggestion_overwrites
    [where b = "\<lparr>AutoExecute = False,
            executor = \<lparr>workspace = ''/ws'', timeout = 60000000000, maxOutputBytes = 4000\<rparr>,
            ollama = \<lparr>history = []\<rparr>, pendingCmds = Map.empty, sent = [], executed = [],
            crashed = False\<rparr>"
       and ?m1.0 = "\<lparr>Role = ''assistant'',
                  Content = fence @ ''bash'' @ [CHR 0x0A] @ ''ls'' @ [CHR 0x0A] @ fence\<rparr>"
       and ?m2.0 = "\<lparr>Role = ''assistant'',
               Content = fence @ ''sh'' @ [CHR 0x0A] @ ''pwd'' @ [CHR 0x0A] @ fence\<rparr>"
       and ?msg1.0 = "\<lparr>From_ID = 42, Chat_ID = 42\<rparr>"
       and ?msg2.0 = "\<lparr>From_ID = 42, Chat_ID = 42\<rparr>"
       and ?msg3.0 = "\<lparr>From_ID = 42, Chat_ID = 42\<rparr>"
       and ?t1.0 = "''list the files''" and ?t2.0 = "''where am I''"
       and ?oc1.0 = "\<lparr>captured_stdout = [], captured_stderr = [], err = None,
            deadline_exceeded = False, elapsed = 0\<rparr>"
       and ?oc2.0 = "\<lparr>captured_stdout = [], captured_stderr = [], err = None,
            deadline_exceeded = False, elapsed = 0\<rparr>"
       and ?oc3.0 = "\<lparr>captured_stdout = ''/ws'', captured_stderr = [], err = None,
            deadline_exceeded = False, elapsed = 7\<rparr>"
       and llm = None]
  by (simp add: extract_eval)



section \<open>Properties of the scheduler\<close>

lemma persist_keeps [simp]:
  "jobs (persist s) = jobs s" "cron (persist s) = cron s" "writable (persist s) = writable s"
  "persistFile (persist s) = persistFile s" "sched_executor (persist s) = sched_executor s"
  by (simp_all add: persist_def)

lemma Add_duplicate:
  "map_of (jobs s) i = Some j \<Longrightarrow> Add s i spec c l now = (s, Some (AlreadyExists i))"
  by (simp add: Add_def)

lemma Add_invalid:
  "map_of (jobs s) i = None \<Longrightarrow> \<not> parses (cron s) spec \<Longrightarrow>
   Add s i spec c l now = (s, Some (InvalidSpec spec))"
  by (simp add: Add_def cron_AddFunc_def)

lemma Add_accepted:
  assumes "map_of (jobs s) i = None" and "parses (cron s) spec"
  shows "snd (Add s i spec c l now) = None"
    and "map_of (jobs (fst (Add s i spec c l now))) =
           (map_of (jobs s))(i \<mapsto> \<lparr>ID = i, Spec = spec, Command = c, Label = l,
              Created = now, LastRun = 0, EntryID = nextID (cron s) + 1\<rparr>)"
  using assms by (simp_all add: Add_def cron_AddFunc_def update_conv')

lemma Remove_absent:
  "map_of (jobs s) i = None \<Longrightarrow> Remove s i = (s, Some (NotFound i))"
  by (simp add: Remove_def)

lemma Remove_present:
  assumes "map_of (jobs s) i = Some j"
  shows "snd (Remove s i) = None"
    and "map_of (jobs (fst (Remove s i))) = (map_of (jobs s))(i := None)"
  using assms by (simp_all add: Remove_def delete_conv')

text \<open>
  Claim C8. \<^verbatim>\<open>Add\<close> with an id that is present fails with the duplicate-id error and
  leaves the scheduler, and with it the original job, as it was; \<^verbatim>\<open>Add\<close> with a new id
  and a schedule text the cron parser rejects fails with the invalid-spec error and leaves
  the scheduler as it was. \<^verbatim>\<open>Remove\<close> of an absent id fails with the not-found error and
  changes nothing; \<^verbatim>\<open>Remove\<close> of a present id succeeds and deletes that entry and no
  other. So, where \<^verbatim>\<open>backup\<close> is absent and the parser accepts \<^verbatim>\<open>@daily\<close>, the first
  \<^verbatim>\<open>Add\<close> succeeds and stores the job, a second \<^verbatim>\<open>Add\<close> of \<^verbatim>\<open>backup\<close> fails as a
  duplicate and changes nothing, \<^verbatim>\<open>Remove\<close> succeeds, and a second \<^verbatim>\<open>Remove\<close> fails
  with not-found.
\<close>

theorem Add_Remove_errors:
  "(\<forall>j. map_of (jobs s) i = Some j \<longrightarrow> Add s i spec c l now = (s, Some (AlreadyExists i)))
   \<and> (map_of (jobs s) i = None \<and> \<not> parses (cron s) spec \<longrightarrow>
        Add s i spec c l now = (s, Some (InvalidSpec spec)))
   \<and> (map_of (jobs s) i = None \<longrightarrow> Remove s i = (s, Some (NotFound i)))
   \<and> (\<forall>j. map_of (jobs s) i = Some j \<longrightarrow>
        snd (Remove s i) = None \<and> map_of (jobs (fst (Remove s i))) = (map_of (jobs s))(i := None))
   \<and> (map_of (jobs s) ''backup'' = None \<and> parses (cron s) ''@daily'' \<longrightarrow>
        snd (Add s ''backup'' ''@daily'' ''echo hi'' ''Daily Backup'' now) = None
      \<and> map_of (jobs (fst (Add s ''backup'' ''@daily'' ''echo hi'' ''Daily Backup'' now))) ''backup''
          = Some \<lparr>ID = ''backup'', Spec = ''@daily'', Command = ''echo hi'',
                  Label = ''Daily Backup'', Created = now, LastRun = 0,
                  EntryID = nextID (cron s) + 1\<rparr>
      \<and> Add (fst (Add s ''backup'' ''@daily'' ''echo hi'' ''Daily Backup'' now))
             ''backup'' spec2 c2 l2 now2
          = (fst (Add s ''backup'' ''@daily'' ''echo hi'' ''Daily Backup'' now),
             Some (AlreadyExists ''backup''))
      \<and> snd (Remove (fst (Add s ''backup'' ''@daily'' ''echo hi'' ''Daily Backup'' now)) ''backup'')
          = None
      \<and> snd (Remove (fst (Remove
             (fst (Add s ''backup'' ''@daily'' ''echo hi'' ''Daily Backup'' now)) ''backup''))
             ''backup'')
          = Some (NotFound ''backup''))"
proof (intro conjI allI impI)
  fix j assume "map_of (jobs s) i = Some j"
  then show "Add s i spec c l now = (s, Some (AlreadyExists i))" by (rule Add_duplicate)
next
  assume "map_of (jobs s) i = None \<and> \<not> parses (cron s) spec"
  then show "Add s i spec c l now = (s, Some (InvalidSpec spec))" by (simp add: Add_invalid)
next
  assume "map_of (jobs s) i = None"
  then show "Remove s i = (s, Some (NotFound i))" by (rule Remove_absent)
next
  fix j assume "map_of (jobs s) i = Some j"
  then show "snd (Remove s i) = None" by (rule Remove_present)
next
  fix j assume "map_of (jobs s) i = Some j"
  then show "map_of (jobs (fst (Remove s i))) = (map_of (jobs s))(i := None)"
    by (rule Remove_present)
next
  let ?s1 = "fst (Add s ''backup'' ''@daily'' ''echo hi'' ''Daily Backup'' now)"
  assume a: "map_of (jobs s) ''backup'' = None \<and> parses (cron s) ''@daily''"
  then have absent: "map_of (jobs s) ''backup'' = None" and ok: "parses (cron s) ''@daily''"
    by simp_all
  show "snd (Add s ''backup'' ''@daily'' ''echo hi'' ''Daily Backup'' now) = None"
    by (rule Add_accepted [OF absent ok])
  have stored: "map_of (jobs ?s1) ''backup''
          = Some \<lparr>ID = ''backup'', Spec = ''@daily'', Command = ''echo hi'',
                  Label = ''Daily Backup'', Created = now, LastRun = 0,
                  EntryID = nextID (cron s) + 1\<rparr>"
    by (simp add: Add_accepted [OF absent ok])
  then show "map_of (jobs ?s1) ''backup''
          = Some \<lparr>ID = ''backup'', Spec = ''@daily'', Command = ''echo hi'',
                  Label = ''Daily Backup'', Created = now, LastRun = 0,
                  EntryID = nextID (cron s) + 1\<rparr>" .
  from stored show "Add ?s1 ''backup'' spec2 c2 l2 now2 = (?s1, Some (AlreadyExists ''backup''))"
    by (rule Add_duplicate)
  from stored show "snd (Remove ?s1 ''backup'') = None"
    by (rule Remove_present)
  from stored have "map_of (jobs (fst (Remove ?s1 ''backup''))) ''backup'' = None"
    by (simp add: Remove_present)
  then show "snd (Remove (fst (Remove ?s1 ''backup'')) ''backup'') = Some (NotFound ''backup'')"
    by (simp add: Remove_absent)
qed

theorem Add_Remove_errors_witness:
  "snd (Add (NewScheduler (\<lambda>spec. spec = ''@daily'') ''crontab.json'' NoFile True
              \<lparr>workspace = ''/ws'', timeout = 60000000000, maxOutputBytes = 4000\<rparr>)
          ''backup'' ''@daily'' ''echo hi'' ''Daily Backup'' 1000) = None
   \<and> snd (Add (fst (Add (NewScheduler (\<lambda>spec. spec = ''@daily'') ''crontab.json'' NoFile True
              \<lparr>workspace = ''/ws'', timeout = 60000000000, maxOutputBytes = 4000\<rparr>)
          ''backup'' ''@daily'' ''echo hi'' ''Daily Backup'' 1000))
        ''backup'' ''@hourly'' ''echo ho'' ''Other'' 2000) = Some (AlreadyExists ''backup'')
   \<and> snd (Remove (fst (Remove (fst (Add
          (NewScheduler (\<lambda>spec. spec = ''@daily'') ''crontab.json'' NoFile True
              \<lparr>workspace = ''/ws'', timeout = 60000000000, maxOutputBytes = 4000\<rparr>)
          ''backup'' ''@daily'' ''echo hi'' ''Daily Backup'' 1000)) ''backup'')) ''backup'')
       = Some (NotFound ''backup'')"
  using Add_Remove_errors
    [where s = "NewScheduler (\<lambda>spec. spec = ''@daily'') ''crontab.json'' NoFile True
              \<lparr>workspace = ''/ws'', timeout = 60000000000, maxOutputBytes = 4000\<rparr>"
       and now = 1000 and ?spec2.0 = "''@hourly''" and ?c2.0 = "''echo ho''"
       and ?l2.0 = "''Other''" and ?now2.0 = 2000]
  by (simp add: NewScheduler_def load_def)

lemma map_of_rev_distinct: "distinct (map fst xs) \<Longrightarrow> map_of (rev xs) = map_of xs"
proof (induction xs)
  case Nil
  then show ?case by simp
next
  case (Cons x xs)
  obtain a b where x: "x = (a, b)" by (cases x)
  from Cons.prems x have "map_of xs a = None"
    by (simp add: map_of_eq_None_iff)
  with Cons x show ?case
    by (auto simp: map_add_def fun_eq_iff split: option.splits)
qed

lemma to_record_of_record [simp]: "to_record ((of_record r)\<lparr>EntryID := i\<rparr>) = r"
  by (simp add: to_record_def of_record_def)

lemma load_job_parses [simp]: "parses (cron (load_job r s)) = parses (cron s)"
  by (simp add: load_job_def cron_AddFunc_def Let_def)

lemma fold_load_job_parses [simp]: "parses (cron (fold load_job rs s)) = parses (cron s)"
  by (induction rs arbitrary: s) simp_all

lemma stored_load_job:
  "parses (cron s) (json_spec r) \<Longrightarrow> stored (load_job r s) = (stored s)(json_id r \<mapsto> r)"
  by (auto simp: stored_def load_job_def cron_AddFunc_def Let_def update_conv' fun_eq_iff
      of_record_def to_record_def)

lemma stored_fold_load_job:
  "\<forall>r \<in> set rs. parses (cron s) (json_spec r) \<Longrightarrow>
   stored (fold load_job rs s) = stored s ++ map_of (rev (map (\<lambda>r. (json_id r, r)) rs))"
proof (induction rs arbitrary: s)
  case Nil
  then show ?case by simp
next
  case (Cons x rs)
  from Cons.prems have "\<forall>r \<in> set rs. parses (cron (load_job x s)) (json_spec r)" by simp
  from Cons.IH [OF this]
  have "stored (fold load_job (x # rs) s)
          = stored (load_job x s) ++ map_of (rev (map (\<lambda>r. (json_id r, r)) rs))"
    by simp
  also from Cons.prems have "stored (load_job x s) = stored s ++ map_of [(json_id x, x)]"
    by (simp add: stored_load_job)
  finally show ?case
    by (simp del: map_add_upd)
qed

lemma sched_inv_load_job: "sched_inv s \<Longrightarrow> sched_inv (load_job r s)"
  by (auto simp: sched_inv_def load_job_def cron_AddFunc_def Let_def update_conv' distinct_update
      of_record_def simp del: map_of_eq_Some_iff split: if_splits)

lemma sched_inv_fold: "sched_inv s \<Longrightarrow> sched_inv (fold load_job rs s)"
  by (induction rs arbitrary: s) (simp_all add: sched_inv_load_job)

lemma sched_inv_persist [simp]: "sched_inv (persist s) = sched_inv s"
  by (simp add: sched_inv_def)

lemma sched_inv_NewScheduler: "sched_inv (NewScheduler parser file d w e)"
proof -
  have "sched_inv \<lparr>cron = \<lparr>parses = parser, entries = [], nextID = 0\<rparr>, jobs = [],
           persistFile = file, disk = d, writable = w, sched_executor = e, notified = []\<rparr>"
    by (simp add: sched_inv_def)
  then show ?thesis
    by (cases d) (simp_all add: NewScheduler_def load_def sched_inv_fold)
qed

lemma sched_inv_Add: "sched_inv s \<Longrightarrow> sched_inv (fst (Add s i spec c l now))"
  by (auto simp: sched_inv_def Add_def cron_AddFunc_def Let_def update_conv' distinct_update
      simp del: map_of_eq_Some_iff split: option.splits if_splits)

lemma sched_inv_Remove: "sched_inv s \<Longrightarrow> sched_inv (fst (Remove s i))"
  by (auto simp: sched_inv_def Remove_def cron_Remove_def delete_conv' distinct_delete
      simp del: map_of_eq_Some_iff split: option.splits if_splits)

lemma sched_inv_runJob: "sched_inv s \<Longrightarrow> sched_inv (runJob s job oc now)"
  by (auto simp: sched_inv_def runJob_def Let_def update_conv' distinct_update
      simp del: map_of_eq_Some_iff split: option.splits sum.splits run_failure.splits if_splits)

lemma sched_inv_trigger: "sched_inv s \<Longrightarrow> sched_inv (trigger s i oc now)"
  by (simp add: trigger_def sched_inv_runJob split: option.splits)

lemma reachable_inv: "reachable s \<Longrightarrow> sched_inv s"
proof (induction rule: reachable.induct)
  case (start p f d w e)
  show ?case by (rule sched_inv_NewScheduler)
next
  case (add s job_id spec command label now)
  then show ?case by (simp add: sched_inv_Add)
next
  case (remove s job_id)
  then show ?case by (simp add: sched_inv_Remove)
next
  case (fire s i oc now)
  then show ?case by (simp add: sched_inv_trigger)
next
  case (disk_state s w)
  then show ?case by (simp add: sched_inv_def)
qed

lemma roundtrip_inv:
  assumes inv: "sched_inv s" and w: "writable s"
  shows "stored (NewScheduler (parses (cron s)) file (disk (persist s)) w' e) = stored s"
proof -
  let ?s0 = "\<lparr>cron = \<lparr>parses = parses (cron s), entries = [], nextID = 0\<rparr>, jobs = [],
           persistFile = file, disk = disk (persist s), writable = w', sched_executor = e,
           notified = []\<rparr>"
  let ?rs = "map (to_record \<circ> snd) (jobs s)"
  from inv have dist: "distinct (map fst (jobs s))"
    and good: "\<And>k j. (k, j) \<in> set (jobs s) \<Longrightarrow> ID j = k \<and> parses (cron s) (Spec j)"
    by (auto simp: sched_inv_def)
  from w have d: "disk (persist s) = JobTable (map (\<lambda>(k, j). (k, to_record j)) (jobs s))"
    by (simp add: persist_def)
  have snd_eq: "map snd (map (\<lambda>(k, j). (k, to_record j)) (jobs s)) = ?rs"
    by (simp add: comp_def case_prod_beta)
  have new: "NewScheduler (parses (cron s)) file (disk (persist s)) w' e = fold load_job ?rs ?s0"
    by (simp only: NewScheduler_def load_def d snd_eq Scheduler.simps file_content.case)
  have ok: "\<forall>r \<in> set ?rs. parses (cron ?s0) (json_spec r)"
    using good by (auto simp: to_record_def)
  have keyed: "map (\<lambda>r. (json_id r, r)) ?rs = map (\<lambda>(k, j). (k, to_record j)) (jobs s)"
    using good by (auto simp: to_record_def)
  have dist': "distinct (map fst (map (\<lambda>(k, j). (k, to_record j)) (jobs s)))"
    using dist by (simp add: case_prod_beta comp_def)
  have e0: "stored ?s0 = Map.empty"
    by (simp add: stored_def fun_eq_iff)
  have "stored (fold load_job ?rs ?s0)
          = stored ?s0 ++ map_of (rev (map (\<lambda>r. (json_id r, r)) ?rs))"
    by (rule stored_fold_load_job [OF ok])
  also have "\<dots> = map_of (rev (map (\<lambda>r. (json_id r, r)) ?rs))"
    by (simp only: e0 empty_map_add)
  also have "\<dots> = map_of (rev (map (\<lambda>(k, j). (k, to_record j)) (jobs s)))"
    by (simp only: keyed)
  also have "\<dots> = map_of (map (\<lambda>(k, j). (k, to_record j)) (jobs s))"
    by (rule map_of_rev_distinct [OF dist'])
  also have "\<dots> = stored s"
    by (simp add: stored_def map_of_map fun_eq_iff)
  finally show ?thesis by (simp add: new)
qed

text \<open>
  Claim C9. For every scheduler state the operations produce, when the file can be written:
  writing the job table with \<^verbatim>\<open>persist\<close> and loading the file into a new scheduler (with
  the same cron parser) gives a table with the same keys in which every job has the id,
  spec, command, label, creation time and last-run time it had.
\<close>

theorem persist_load_roundtrip:
  assumes reach: "reachable s" and w: "writable s"
  shows "stored (NewScheduler (parses (cron s)) file (disk (persist s)) w' e) = stored s
   \<and> (\<forall>k. map_of (jobs s) k = None \<longrightarrow>
          map_of (jobs (NewScheduler (parses (cron s)) file (disk (persist s)) w' e)) k = None)
   \<and> (\<forall>k j. map_of (jobs s) k = Some j \<longrightarrow>
        (\<exists>j'. map_of (jobs (NewScheduler (parses (cron s)) file (disk (persist s)) w' e)) k = Some j'
           \<and> ID j' = ID j \<and> Spec j' = Spec j \<and> Command j' = Command j \<and> Label j' = Label j
           \<and> Created j' = Created j \<and> LastRun j' = LastRun j))"
proof -
  let ?n = "NewScheduler (parses (cron s)) file (disk (persist s)) w' e"
  have eq: "stored ?n = stored s"
    by (rule roundtrip_inv [OF reachable_inv [OF reach] w])
  have none: "\<forall>k. map_of (jobs s) k = None \<longrightarrow> map_of (jobs ?n) k = None"
  proof (intro allI impI)
    fix k assume "map_of (jobs s) k = None"
    then have "stored s k = None" by (simp add: stored_def)
    with eq have "stored ?n k = None" by simp
    then show "map_of (jobs ?n) k = None" by (simp add: stored_def)
  qed
  have some: "\<forall>k j. map_of (jobs s) k = Some j \<longrightarrow>
        (\<exists>j'. map_of (jobs ?n) k = Some j'
           \<and> ID j' = ID j \<and> Spec j' = Spec j \<and> Command j' = Command j \<and> Label j' = Label j
           \<and> Created j' = Created j \<and> LastRun j' = LastRun j)"
  proof (intro allI impI)
    fix k j assume "map_of (jobs s) k = Some j"
    then have "stored s k = Some (to_record j)" by (simp add: stored_def)
    with eq have "stored ?n k = Some (to_record j)" by simp
    then obtain j' where j': "map_of (jobs ?n) k = Some j'" and r: "to_record j' = to_record j"
      by (auto simp: stored_def simp del: map_of_eq_Some_iff)
    from r have "ID j' = ID j \<and> Spec j' = Spec j \<and> Command j' = Command j \<and> Label j' = Label j
           \<and> Created j' = Created j \<and> LastRun j' = LastRun j"
      by (simp add: to_record_def)
    with j' show "\<exists>j'. map_of (jobs ?n) k = Some j'
           \<and> ID j' = ID j \<and> Spec j' = Spec j \<and> Command j' = Command j \<and> Label j' = Label j
           \<and> Created j' = Created j \<and> LastRun j' = LastRun j"
      by blast
  qed
  from eq none some show ?thesis by blast
qed

theorem persist_load_roundtrip_witness:
  "stored (NewScheduler (\<lambda>spec. spec = ''@daily'') ''crontab.json''
        (disk (persist (trigger (fst (Add (NewScheduler (\<lambda>spec. spec = ''@daily'') ''crontab.json'' NoFile True
              \<lparr>workspace = ''/ws'', timeout = 60000000000, maxOutputBytes = 4000\<rparr>)
          ''backup'' ''@daily'' ''echo hi'' ''Daily Backup'' 1000)) 1
         \<lparr>captured_stdout = ''hi'', captured_stderr = [], err = None,
          deadline_exceeded = False, elapsed = 5\<rparr> 2000))) True
        \<lparr>workspace = ''/ws'', timeout = 60000000000, maxOutputBytes = 4000\<rparr>) ''backup''
   = Some \<lparr>json_id = ''backup'', json_spec = ''@daily'', json_command = ''echo hi'',
           json_label = ''Daily Backup'', json_created = 1000, json_last_run = 2000\<rparr>"
proof -
  let ?s = "trigger (fst (Add (NewScheduler (\<lambda>spec. spec = ''@daily'') ''crontab.json'' NoFile True
              \<lparr>workspace = ''/ws'', timeout = 60000000000, maxOutputBytes = 4000\<rparr>)
          ''backup'' ''@daily'' ''echo hi'' ''Daily Backup'' 1000)) 1
         \<lparr>captured_stdout = ''hi'', captured_stderr = [], err = None,
          deadline_exceeded = False, elapsed = 5\<rparr> 2000"
  have r: "reachable ?s"
    by (intro reachable.intros)
  have w: "writable ?s"
    by (simp add: trigger_def runJob_def Add_def cron_AddFunc_def NewScheduler_def load_def
        persist_def Run_def truncate_stream_def Let_def)
  have p: "parses (cron ?s) = (\<lambda>spec. spec = ''@daily'')"
    by (simp add: trigger_def runJob_def Add_def cron_AddFunc_def NewScheduler_def load_def
        persist_def Run_def truncate_stream_def Let_def)
  have v: "stored ?s ''backup''
     = Some \<lparr>json_id = ''backup'', json_spec = ''@daily'', json_command = ''echo hi'',
           json_label = ''Daily Backup'', json_created = 1000, json_last_run = 2000\<rparr>"
    by (simp add: stored_def to_record_def trigger_def runJob_def Add_def cron_AddFunc_def
        NewScheduler_def load_def persist_def Run_def truncate_stream_def Let_def)
  from persist_load_roundtrip [OF r w, of "''crontab.json''" True
      "\<lparr>workspace = ''/ws'', timeout = 60000000000, maxOutputBytes = 4000\<rparr>"]
  show ?thesis by (simp only: p v)
qed

section \<open>Properties of command extraction\<close>

lemma strip_prefix_append [simp]: "strip_prefix p (p @ s) = Some s"
  by (simp add: strip_prefix_def)

lemma strip_prefix_fence_other: "c \<noteq> CHR 0x60 \<Longrightarrow> strip_prefix fence (c # cs) = None"
  by (auto simp: strip_prefix_def fence_def)

lemma match_here_other: "c \<noteq> CHR 0x60 \<Longrightarrow> match_here (c # cs) = None"
  by (simp add: match_here_def strip_prefix_fence_other)

lemma match_here_Nil: "match_here [] = None"
  by (simp add: match_here_def strip_prefix_def fence_def)

lemma FindAllSubmatch_skip:
  "CHR 0x60 \<notin> set pre \<Longrightarrow> FindAllSubmatch (pre @ s) = FindAllSubmatch s"
proof (induction pre)
  case Nil
  then show ?case by simp
next
  case (Cons c pre)
  then have "c \<noteq> CHR 0x60" by auto
  then have "FindAllSubmatch ((c # pre) @ s) = FindAllSubmatch (pre @ s)"
    by (subst FindAllSubmatch.simps) (simp add: match_here_other)
  with Cons show ?case by simp
qed

lemma FindAllSubmatch_Nil: "FindAllSubmatch [] = []"
  by (subst FindAllSubmatch.simps) (simp add: match_here_Nil)

lemma FindAllSubmatch_plain: "CHR 0x60 \<notin> set post \<Longrightarrow> FindAllSubmatch post = []"
  using FindAllSubmatch_skip [of post "[]"] by (simp add: FindAllSubmatch_Nil)

lemma lazy_body_plain:
  "CHR 0x60 \<notin> set body \<Longrightarrow> lazy_body (body @ fence @ rest) = Some (body, rest)"
proof (induction body)
  case Nil
  have "lazy_body (fence @ rest) = Some ([], rest)"
    by (simp add: fence_def strip_prefix_def)
  then show ?case by simp
next
  case (Cons c body)
  then have "c \<noteq> CHR 0x60" by auto
  with Cons show ?case by (simp add: strip_prefix_fence_other)
qed

lemma after_tag_block:
  "CHR 0x60 \<notin> set body \<Longrightarrow>
   after_tag tag (tag @ [CHR 0x0A] @ body @ fence @ rest) = Some (body, rest)"
  using strip_prefix_append [of "tag @ [CHR 0x0A]" "body @ fence @ rest"]
  by (simp add: after_tag_def lazy_body_plain)

lemma match_here_block:
  assumes "tag = ''bash'' \<or> tag = ''sh'' \<or> tag = []" and "CHR 0x60 \<notin> set body"
  shows "match_here (block tag body @ rest) = Some (body, rest)"
proof -
  have s: "strip_prefix fence (block tag body @ rest) = Some (tag @ [CHR 0x0A] @ body @ fence @ rest)"
    using strip_prefix_append [of fence "tag @ [CHR 0x0A] @ body @ fence @ rest"]
    by (simp add: block_def)
  have a: "after_tag tag (tag @ [CHR 0x0A] @ body @ fence @ rest) = Some (body, rest)"
    by (rule after_tag_block [OF assms(2)])
  from assms(1) show ?thesis
  proof (elim disjE)
    assume "tag = ''bash''"
    with a s show ?thesis by (simp add: match_here_def)
  next
    assume t: "tag = ''sh''"
    have "after_tag ''bash'' (''sh'' @ [CHR 0x0A] @ body @ fence @ rest) = None"
      by (simp add: after_tag_def strip_prefix_def)
    with a s t show ?thesis by (simp add: match_here_def)
  next
    assume t: "tag = []"
    have "after_tag ''bash'' ([CHR 0x0A] @ body @ fence @ rest) = None"
      and "after_tag ''sh'' ([CHR 0x0A] @ body @ fence @ rest) = None"
      by (simp_all add: after_tag_def strip_prefix_def)
    with a s t show ?thesis by (simp add: match_here_def)
  qed
qed

lemma FindAllSubmatch_block:
  assumes "tag = ''bash'' \<or> tag = ''sh'' \<or> tag = []" and "CHR 0x60 \<notin> set body"
  shows "FindAllSubmatch (block tag body @ rest) = body # FindAllSubmatch rest"
  by (subst FindAllSubmatch.simps) (simp add: match_here_block [OF assms])

lemma FindAllSubmatch_document:
  assumes "\<forall>(pre, tag, body) \<in> set bs.
             CHR 0x60 \<notin> set pre \<and> (tag = ''bash'' \<or> tag = ''sh'' \<or> tag = []) \<and> CHR 0x60 \<notin> set body"
      and "CHR 0x60 \<notin> set post"
  shows "FindAllSubmatch (document bs post) = map (\<lambda>(pre, tag, body). body) bs"
  using assms(1)
proof (induction bs)
  case Nil
  then show ?case by (simp add: FindAllSubmatch_plain [OF assms(2)])
next
  case (Cons b bs)
  obtain pre tag body where b: "b = (pre, tag, body)" by (cases b)
  from Cons.prems b have pre: "CHR 0x60 \<notin> set pre"
    and tag: "tag = ''bash'' \<or> tag = ''sh'' \<or> tag = []" and body: "CHR 0x60 \<notin> set body"
    by auto
  from Cons have IH: "FindAllSubmatch (document bs post) = map (\<lambda>(pre, tag, body). body) bs"
    by simp
  have "FindAllSubmatch (document (b # bs) post)
          = FindAllSubmatch (block tag body @ document bs post)"
    by (simp add: b FindAllSubmatch_skip [OF pre])
  also have "\<dots> = body # FindAllSubmatch (document bs post)"
    by (rule FindAllSubmatch_block [OF tag body])
  finally show ?case by (simp add: IH b)
qed

text \<open>
  Texts on which extraction finds the blocks. On a text made of blocks whose opening
  fence carries the tag \<^verbatim>\<open>bash\<close>, the tag \<^verbatim>\<open>sh\<close> or no tag, where neither the text around the
  blocks nor a body holds a backtick, extraction returns the bodies with the white space
  around them removed, in the order of the text, a body as often as it occurs, without
  the bodies that are empty after trimming.
\<close>

lemma ExtractBashCommands_document:
  assumes "\<forall>(pre, tag, body) \<in> set bs.
             CHR 0x60 \<notin> set pre \<and> (tag = ''bash'' \<or> tag = ''sh'' \<or> tag = []) \<and> CHR 0x60 \<notin> set body"
      and "CHR 0x60 \<notin> set post"
  shows "ExtractBashCommands (document bs post)
           = filter (\<lambda>cmd. cmd \<noteq> []) (map (\<lambda>(pre, tag, body). TrimSpace body) bs)"
  by (simp add: ExtractBashCommands_def FindAllSubmatch_document [OF assms] split_def comp_def)

lemma ExtractBashCommands_document_example:
  "ExtractBashCommands
     (document
        [(''Run:'' @ [CHR 0x0A], ''bash'', ''ls'' @ [CHR 0x0A]),
         (''then'' @ [CHR 0x0A], ''sh'', ''  '' @ [CHR 0x0A]),
         ([CHR 0x0A], [], '' pwd'' @ [CHR 0x0A]),
         ([], ''bash'', ''ls'' @ [CHR 0x0A])]
        ''done.'')
   = [''ls'', ''pwd'', ''ls'']"
proof -
  have blocks: "\<forall>(pre, tag, body) \<in> set
        [(''Run:'' @ [CHR 0x0A], ''bash'', ''ls'' @ [CHR 0x0A]),
         (''then'' @ [CHR 0x0A], ''sh'', ''  '' @ [CHR 0x0A]),
         ([CHR 0x0A], [], '' pwd'' @ [CHR 0x0A]),
         ([], ''bash'', ''ls'' @ [CHR 0x0A])].
      CHR 0x60 \<notin> set pre \<and> (tag = ''bash'' \<or> tag = ''sh'' \<or> tag = []) \<and> CHR 0x60 \<notin> set body"
    by simp
  have post: "CHR 0x60 \<notin> set ''done.''"
    by simp
  have t1: "TrimSpace (''ls'' @ [CHR 0x0A]) = ''ls''"
    by (simp add: TrimSpace_def trim_front.simps front_width_def space_encodings_def)
  have t2: "TrimSpace (''  '' @ [CHR 0x0A]) = []"
    by (simp add: TrimSpace_def trim_front.simps front_width_def space_encodings_def)
  have t3: "TrimSpace ('' pwd'' @ [CHR 0x0A]) = ''pwd''"
    by (simp add: TrimSpace_def trim_front.simps front_width_def space_encodings_def)
  from ExtractBashCommands_document [OF blocks post] show ?thesis
    by (simp only: list.map prod.case t1 t2 t3 filter.simps) simp
qed

text \<open>
  Claim C6 does not hold of the code on a text with a block in another language before
  the shell blocks. The pattern is not bound to the start of a line, so the closing fence
  of the other block, followed by a newline, is read as an opening fence without tag and
  the next opening fence as its closing fence. With a \<^verbatim>\<open>python\<close> block followed by a
  \<^verbatim>\<open>bash\<close> block and an \<^verbatim>\<open>sh\<close> block, no command is returned; with a line of prose between a
  \<^verbatim>\<open>python\<close> block and a \<^verbatim>\<open>bash\<close> block, the prose is returned as the command and the shell
  block is not.
\<close>

theorem ExtractBashCommands_other_blocks:
  "ExtractBashCommands
     (block ''python'' (''print(1)'' @ [CHR 0x0A]) @ [CHR 0x0A]
      @ block ''bash'' (''ls'' @ [CHR 0x0A]) @ [CHR 0x0A]
      @ block ''sh'' (''pwd'' @ [CHR 0x0A])) = []
   \<and> ExtractBashCommands
     (block ''python'' (''print(1)'' @ [CHR 0x0A]) @ [CHR 0x0A]
      @ ''Then run:'' @ [CHR 0x0A]
      @ block ''bash'' (''ls'' @ [CHR 0x0A])) = [''Then run:'']"
  by (simp add: extract_eval block_def)

section \<open>Properties of the workspace files\<close>

lemmas path_eval = Join_def Clean_def clean_elems_def clean_step_def is_rooted_def render_path_def
  Base_def parent_dir_def


text \<open>
  Claim C1. \<^verbatim>\<open>RunScript\<close> joins the file name to the workspace as it is given: with the
  workspace \<^verbatim>\<open>/ws\<close> and the file name \<^verbatim>\<open>../outside.sh\<close> it finds the file \<^verbatim>\<open>/outside.sh\<close>, sets
  its executable bits and hands the command line \<^verbatim>\<open>bash /outside.sh\<close> to \<^verbatim>\<open>Run\<close>; nothing
  is rejected.
\<close>

theorem RunScript_runs_outside_workspace:
  "RunScript \<lparr>workspace = ''/ws'', timeout = 60000000000, maxOutputBytes = 4000\<rparr>
     [(''/'', Directory 493), (''/ws'', Directory 493), (''/outside.sh'', File 420 ''echo pwned'')]
     ''../outside.sh'' []
     \<lparr>captured_stdout = ''pwned'', captured_stderr = [], err = None,
      deadline_exceeded = False, elapsed = 1000000\<rparr>
   = ([(''/'', Directory 493), (''/ws'', Directory 493), (''/outside.sh'', File 493 ''echo pwned'')],
      Inr (''bash /outside.sh'',
           \<lparr>Stdout = ''pwned'', Stderr = [], ExitCode = 0, Duration = 1000000, Truncated = False\<rparr>))"
  by (simp add: RunScript_def Join_def Clean_def clean_elems_def clean_step_def is_rooted_def
      render_path_def os_Stat_def os_Chmod_def detectInterpreter_def os_ReadFile_def Ext_def
      ToLower_def lower_char_def Run_def truncate_stream_def slice_to_def Let_def)

lemma Base_cases: "Base f = ''/'' \<or> (Base f \<noteq> [] \<and> CHR ''/'' \<notin> set (Base f))"
  by (auto simp: Base_def Let_def dest: set_takeWhileD)

lemma split_sep_ne [simp]: "split_sep s \<noteq> []"
  by (induction s) (auto split: list.splits)

lemma split_sep_plain: "CHR ''/'' \<notin> set b \<Longrightarrow> split_sep b = [b]"
  by (induction b) (auto split: list.splits)

lemma split_sep_append: "CHR ''/'' \<notin> set b \<Longrightarrow> split_sep (a @ CHR ''/'' # b) = split_sep a @ [b]"
  by (induction a) (auto simp: split_sep_plain split: list.splits)

lemma Base_plain: "b \<noteq> [] \<Longrightarrow> CHR ''/'' \<notin> set b \<Longrightarrow> Base b = b"
proof -
  assume b: "b \<noteq> []" and s: "CHR ''/'' \<notin> set b"
  from b s have d: "dropWhile (\<lambda>c. c = CHR ''/'') (rev b) = rev b"
    by (cases "rev b") auto
  from s have t: "takeWhile (\<lambda>c. c \<noteq> CHR ''/'') (rev b) = rev b"
    by (auto intro: takeWhile_eq_all_conv [THEN iffD2])
  show ?thesis using b by (simp add: Base_def Let_def d t)
qed

lemma Base_idem: "Base (Base f) = Base f"
  using Base_cases [of f] by (auto simp: Base_plain) (simp add: Base_def)


lemma is_rooted_append: "a \<noteq> [] \<Longrightarrow> is_rooted (a @ b) = is_rooted a"
  by (cases a) (simp_all add: is_rooted_def)

lemma Join_plain:
  assumes "ws \<noteq> []" and "plain_name b"
  shows "Join ws b = child ws b"
proof -
  from assms(2) have s: "split_sep (ws @ CHR ''/'' # b) = split_sep ws @ [b]"
    by (simp add: split_sep_append plain_name_def)
  from assms(2) have c: "clean_step r out b = out @ [b]" for r out
    by (simp add: clean_step_def plain_name_def)
  from assms(1) show ?thesis
    by (simp add: Join_def Clean_def child_def clean_elems_def is_rooted_append s c)
qed

lemma Join_dot:
  assumes "ws \<noteq> []"
  shows "Join ws ''.'' = Clean ws"
proof -
  have s: "split_sep (ws @ CHR ''/'' # ''.'') = split_sep ws @ [''.'']"
    by (simp add: split_sep_append)
  from assms show ?thesis
    by (simp add: Join_def Clean_def clean_elems_def is_rooted_append s clean_step_def)
qed

lemma Join_slash:
  assumes "ws \<noteq> []"
  shows "Join ws ''/'' = Clean ws"
proof -
  have "split_sep ((ws @ ''/'') @ CHR ''/'' # []) = split_sep (ws @ CHR ''/'' # []) @ [[]]"
    by (rule split_sep_append) simp
  also have "split_sep (ws @ CHR ''/'' # []) = split_sep ws @ [[]]"
    by (rule split_sep_append) simp
  finally have s: "split_sep (ws @ ''//'') = split_sep ws @ [[], []]"
    by simp
  from assms show ?thesis
    by (simp add: Join_def Clean_def clean_elems_def is_rooted_append s clean_step_def)
qed

lemma Base_target:
  assumes "ws \<noteq> []" and "Base f \<noteq> ''..''"
  shows "Join ws (Base f) = Clean ws \<or> (plain_name (Base f) \<and> Join ws (Base f) = child ws (Base f))"
proof (cases "Base f = ''/'' \<or> Base f = ''.''")
  case True
  with assms(1) show ?thesis by (auto simp: Join_dot Join_slash)
next
  case False
  with Base_cases [of f] assms(2) have "plain_name (Base f)"
    by (auto simp: plain_name_def)
  with assms(1) show ?thesis by (simp add: Join_plain)
qed

lemma os_WriteFile_frame:
  "os_WriteFile fs p data = Some fs' \<Longrightarrow>
     (\<exists>m. map_of fs' p = Some (File m data)) \<and> (\<forall>q. q \<noteq> p \<longrightarrow> map_of fs' q = map_of fs q)"
  by (auto simp: os_WriteFile_def update_conv' split: option.splits node.splits)

lemma os_Remove_frame:
  "os_Remove fs p = Some fs' \<Longrightarrow>
     map_of fs' p = None \<and> (\<forall>q. q \<noteq> p \<longrightarrow> map_of fs' q = map_of fs q)"
  by (auto simp: os_Remove_def delete_conv' split: option.splits node.splits if_splits)

lemma os_ReadFile_local:
  "map_of fs p = map_of fs2 p \<Longrightarrow> os_ReadFile fs p = os_ReadFile fs2 p"
  by (simp add: os_ReadFile_def)

text \<open>
  Claim C5, as the code has it. \<^verbatim>\<open>SaveFile\<close>, \<^verbatim>\<open>ReadFile\<close> and \<^verbatim>\<open>DeleteFile\<close> keep the last
  element of the file name and work on it as if it had been given alone. When that
  element is not \<^verbatim>\<open>..\<close>, the path they work on is the workspace directory or the entry of
  that name in it; \<^verbatim>\<open>SaveFile\<close> fails or writes that path and no other, \<^verbatim>\<open>ReadFile\<close> depends
  on that path only, \<^verbatim>\<open>DeleteFile\<close> fails or removes that path and no other.
\<close>

theorem file_operations_sanitize:
  assumes "workspace e \<noteq> []" and "Base filename \<noteq> ''..''"
  shows "(Join (workspace e) (Base filename) = Clean (workspace e)
          \<or> (plain_name (Base filename)
              \<and> Join (workspace e) (Base filename) = child (workspace e) (Base filename)))
       \<and> SaveFile e fs filename content = SaveFile e fs (Base filename) content
       \<and> ReadFile e fs filename = ReadFile e fs (Base filename)
       \<and> DeleteFile e fs filename = DeleteFile e fs (Base filename)
       \<and> (SaveFile e fs filename content = (fs, Inl SavingFile)
          \<or> (\<exists>fs' m. SaveFile e fs filename content = (fs', Inr (Join (workspace e) (Base filename)))
                \<and> map_of fs' (Join (workspace e) (Base filename)) = Some (File m content)
                \<and> (\<forall>q. q \<noteq> Join (workspace e) (Base filename) \<longrightarrow> map_of fs' q = map_of fs q)))
       \<and> (map_of fs (Join (workspace e) (Base filename)) = map_of fs2 (Join (workspace e) (Base filename))
            \<longrightarrow> ReadFile e fs filename = ReadFile e fs2 filename)
       \<and> (DeleteFile e fs filename = (fs, Some RemoveFailed)
          \<or> (\<exists>fs'. DeleteFile e fs filename = (fs', None)
                \<and> map_of fs' (Join (workspace e) (Base filename)) = None
                \<and> (\<forall>q. q \<noteq> Join (workspace e) (Base filename) \<longrightarrow> map_of fs' q = map_of fs q)))"
proof (intro conjI)
  show "Join (workspace e) (Base filename) = Clean (workspace e)
          \<or> (plain_name (Base filename)
              \<and> Join (workspace e) (Base filename) = child (workspace e) (Base filename))"
    by (rule Base_target [OF assms])
  show "SaveFile e fs filename content = SaveFile e fs (Base filename) content"
    by (simp add: SaveFile_def Base_idem)
  show "ReadFile e fs filename = ReadFile e fs (Base filename)"
    by (simp add: ReadFile_def Base_idem)
  show "DeleteFile e fs filename = DeleteFile e fs (Base filename)"
    by (simp add: DeleteFile_def Base_idem)
  show "SaveFile e fs filename content = (fs, Inl SavingFile)
          \<or> (\<exists>fs' m. SaveFile e fs filename content = (fs', Inr (Join (workspace e) (Base filename)))
                \<and> map_of fs' (Join (workspace e) (Base filename)) = Some (File m content)
                \<and> (\<forall>q. q \<noteq> Join (workspace e) (Base filename) \<longrightarrow> map_of fs' q = map_of fs q))"
  proof (cases "os_WriteFile fs (Join (workspace e) (Base filename)) content")
    case None
    then show ?thesis by (simp add: SaveFile_def)
  next
    case (Some fs')
    from os_WriteFile_frame [OF Some] Some show ?thesis
      by (simp add: SaveFile_def)
  qed
  show "map_of fs (Join (workspace e) (Base filename)) = map_of fs2 (Join (workspace e) (Base filename))
            \<longrightarrow> ReadFile e fs filename = ReadFile e fs2 filename"
    by (simp add: ReadFile_def os_ReadFile_def)
  show "DeleteFile e fs filename = (fs, Some RemoveFailed)
          \<or> (\<exists>fs'. DeleteFile e fs filename = (fs', None)
                \<and> map_of fs' (Join (workspace e) (Base filename)) = None
                \<and> (\<forall>q. q \<noteq> Join (workspace e) (Base filename) \<longrightarrow> map_of fs' q = map_of fs q))"
  proof (cases "os_Remove fs (Join (workspace e) (Base filename))")
    case None
    then show ?thesis by (simp add: DeleteFile_def)
  next
    case (Some fs')
    from os_Remove_frame [OF Some] Some show ?thesis
      by (simp add: DeleteFile_def)
  qed
qed

theorem file_operations_sanitize_witness:
  "workspace \<lparr>workspace = ''/ws'', timeout = 60000000000, maxOutputBytes = 4000\<rparr> \<noteq> []
   \<and> Base ''../outside.sh'' \<noteq> ''..''
   \<and> Join (workspace \<lparr>workspace = ''/ws'', timeout = 60000000000, maxOutputBytes = 4000\<rparr>) (Base ''../outside.sh'') = ''/ws/outside.sh''
   \<and> SaveFile \<lparr>workspace = ''/ws'', timeout = 60000000000, maxOutputBytes = 4000\<rparr>
        [(''/'', Directory 493), (''/ws'', Directory 493), (''/outside.sh'', File 420 ''echo old'')]
        ''../outside.sh'' ''echo new''
      = SaveFile \<lparr>workspace = ''/ws'', timeout = 60000000000, maxOutputBytes = 4000\<rparr>
        [(''/'', Directory 493), (''/ws'', Directory 493), (''/outside.sh'', File 420 ''echo old'')]
        ''outside.sh'' ''echo new''"
proof -
  have ws: "workspace \<lparr>workspace = ''/ws'', timeout = 60000000000, maxOutputBytes = 4000\<rparr> \<noteq> []"
    by simp
  have b: "Base ''../outside.sh'' = ''outside.sh''"
    by (simp add: Base_def)
  then have nb: "Base ''../outside.sh'' \<noteq> ''..''"
    by simp
  have j: "Join ''/ws'' ''outside.sh'' = ''/ws/outside.sh''"
    by (simp add: path_eval)
  have "SaveFile \<lparr>workspace = ''/ws'', timeout = 60000000000, maxOutputBytes = 4000\<rparr>
        [(''/'', Directory 493), (''/ws'', Directory 493), (''/outside.sh'', File 420 ''echo old'')]
        ''../outside.sh'' ''echo new''
      = SaveFile \<lparr>workspace = ''/ws'', timeout = 60000000000, maxOutputBytes = 4000\<rparr>
        [(''/'', Directory 493), (''/ws'', Directory 493), (''/outside.sh'', File 420 ''echo old'')]
        (Base ''../outside.sh'') ''echo new''"
    by (rule file_operations_sanitize [OF ws nb, THEN conjunct2, THEN conjunct1])
  with ws nb b j show ?thesis
    by simp
qed

text \<open>
  Claim C5 as stated fails: a file name that leaves the workspace is not rejected. The
  three operations succeed on \<^verbatim>\<open>../outside.sh\<close>, \<^verbatim>\<open>/etc/passwd\<close> and \<^verbatim>\<open>../../tmp/notes\<close>, on the
  files of these base names in the workspace.
\<close>

theorem file_operations_do_not_reject:
  "SaveFile \<lparr>workspace = ''/ws'', timeout = 60000000000, maxOutputBytes = 4000\<rparr>
     [(''/'', Directory 493), (''/ws'', Directory 493), (''/outside.sh'', File 420 ''echo old'')]
     ''../outside.sh'' ''echo new''
   = ([(''/'', Directory 493), (''/ws'', Directory 493), (''/outside.sh'', File 420 ''echo old''),
       (''/ws/outside.sh'', File 420 ''echo new'')],
      Inr ''/ws/outside.sh'')
   \<and> ReadFile \<lparr>workspace = ''/ws'', timeout = 60000000000, maxOutputBytes = 4000\<rparr>
     [(''/'', Directory 493), (''/ws'', Directory 493), (''/ws/passwd'', File 420 ''mine'')]
     ''/etc/passwd''
   = Inr ''mine''
   \<and> DeleteFile \<lparr>workspace = ''/ws'', timeout = 60000000000, maxOutputBytes = 4000\<rparr>
     [(''/'', Directory 493), (''/ws'', Directory 493), (''/ws/notes'', File 420 ''mine'')]
     ''../../tmp/notes''
   = ([(''/'', Directory 493), (''/ws'', Directory 493)], None)"
  by (simp add: SaveFile_def ReadFile_def DeleteFile_def path_eval os_WriteFile_def os_ReadFile_def
      os_Remove_def Let_def)

end
